theory Spec2Isabelle
  imports Main "HOL-Library.Signed_Division"
begin

section \<open>Photo watermark tool: a shallow embedding of \<open>watermark_cli.py\<close>\<close>

text \<open>
  Python values are modelled as follows. A Python \<open>int\<close> is an \<^typ>\<open>int\<close> (unbounded).
  A Python \<open>str\<close> is a list of code points. Where every string has code points below
  256 (the text of an EXIF tag, which the imaging library decodes as Latin-1) or is only
  compared with literals (a position, a path component) it is a \<^typ>\<open>string\<close>, one
  \<^typ>\<open>char\<close> per code point; the colour expression, which comes from the command
  line, is a list of natural numbers, so that it ranges over all of Unicode. Every
  exception that the source can meet is a value of \<open>py_exception\<close>, whose members
  are all of the class \<open>Exception\<close>; a computation that may raise returns
  \<open>py_exception + 'a\<close> with \<open>Inl\<close> for the raised exception.
\<close>

datatype py_exception =
    ValueError
  | IndexError
  | OSError
  | UnicodeEncodeError
  | OtherException string

subsection \<open>Python built-ins used by the source\<close>

text \<open>Sequencing of computations that may raise: the first exception ends the sequence.\<close>

definition bind_exc :: "py_exception + 'a \<Rightarrow> ('a \<Rightarrow> py_exception + 'b) \<Rightarrow> py_exception + 'b" where
  "bind_exc r f = (case r of Inl e \<Rightarrow> Inl e | Inr v \<Rightarrow> f v)"

text \<open>
  \<open>str.isspace\<close> on the code points below 256: tab to carriage return, the four
  separators 28 to 31, the blank, NEL (133) and the no-break space (160).
  \<open>str.strip()\<close> removes such characters at both ends.
\<close>

definition is_space :: "char \<Rightarrow> bool" where
  "is_space c =
     (let n = (of_char c :: nat)
      in (9 \<le> n \<and> n \<le> 13) \<or> (28 \<le> n \<and> n \<le> 32) \<or> n = 133 \<or> n = 160)"

definition py_strip :: "string \<Rightarrow> string" where
  "py_strip s = rev (dropWhile is_space (rev (dropWhile is_space s)))"

text \<open>
  \<open>s.split(sep)\<close> for a separator of one character: the fields between the
  separators, empty fields kept; the result always has at least one field.
\<close>

fun py_split :: "char \<Rightarrow> string \<Rightarrow> string list" where
  "py_split sep [] = [[]]"
| "py_split sep (c # cs) =
     (if c = sep then [] # py_split sep cs
      else (case py_split sep cs of
              w # ws \<Rightarrow> (c # w) # ws
            | [] \<Rightarrow> [[c]]))"

text \<open>The slice \<open>xs[i:j]\<close> for \<open>0 \<le> i \<le> j\<close>; it is shorter when \<open>xs\<close> ends early.\<close>

definition slice :: "nat \<Rightarrow> nat \<Rightarrow> 'a list \<Rightarrow> 'a list" where
  "slice i j xs = take (j - i) (drop i xs)"

text \<open>
  \<open>int(s, base)\<close> on a string, for the bases 10 and 16 of the source. The conversion
  skips blanks at both ends (its blanks are those of \<open>is_space\<close> without the separators
  28 to 31), takes one optional sign, for base 16 an optional prefix \<open>0x\<close> or \<open>0X\<close>
  that may be followed by one underscore, and then wants at least one digit, with single
  underscores allowed between digits. Everything else raises \<open>ValueError\<close>, and so
  does, for a base that is no power of two, a string of more than 4300 digits (the
  default of \<open>sys.int_max_str_digits\<close>; leading zeros count, underscores do not).
\<close>

definition int_max_str_digits :: nat where
  "int_max_str_digits = 4300"

definition int_space :: "char \<Rightarrow> bool" where
  "int_space c =
     (let n = (of_char c :: nat)
      in (9 \<le> n \<and> n \<le> 13) \<or> n = 32 \<or> n = 133 \<or> n = 160)"

definition digit_value :: "char \<Rightarrow> nat" where
  "digit_value c =
     (let n = (of_char c :: nat)
      in if 48 \<le> n \<and> n \<le> 57 then n - 48
         else if 97 \<le> n \<and> n \<le> 122 then n - 87
         else if 65 \<le> n \<and> n \<le> 90 then n - 55
         else 37)"

fun scan_digits :: "nat \<Rightarrow> bool \<Rightarrow> nat \<Rightarrow> string \<Rightarrow> nat option" where
  "scan_digits base prev_us acc [] = (if prev_us then None else Some acc)"
| "scan_digits base prev_us acc (c # cs) =
     (if c = CHR ''_'' then (if prev_us then None else scan_digits base True acc cs)
      else if digit_value c < base then scan_digits base False (acc * base + digit_value c) cs
      else None)"

definition strip_base_prefix :: "nat \<Rightarrow> string \<Rightarrow> string" where
  "strip_base_prefix base s =
     (case s of
        a # b # r \<Rightarrow>
          if base = 16 \<and> a = CHR ''0'' \<and> (b = CHR ''x'' \<or> b = CHR ''X'')
          then (case r of u # r' \<Rightarrow> if u = CHR ''_'' then r' else r | [] \<Rightarrow> r)
          else s
      | _ \<Rightarrow> s)"

definition py_int :: "nat \<Rightarrow> string \<Rightarrow> py_exception + int" where
  "py_int base s =
     (let s1 = rev (dropWhile int_space (rev (dropWhile int_space s)));
          (sign, s2) = (case s1 of
                          c # r \<Rightarrow> if c = CHR ''+'' then (1, r)
                                   else if c = CHR ''-'' then (- 1, r)
                                   else (1, s1)
                        | [] \<Rightarrow> (1, s1));
          s3 = strip_base_prefix base s2
      in case s3 of
           [] \<Rightarrow> Inl ValueError
         | c # _ \<Rightarrow>
             if c = CHR ''_'' then Inl ValueError
             else (case scan_digits base False 0 s3 of
                     None \<Rightarrow> Inl ValueError
                   | Some n \<Rightarrow>
                       if base \<notin> {2, 4, 8, 16, 32}
                          \<and> int_max_str_digits < length (filter (\<lambda>c. c \<noteq> CHR ''_'') s3)
                       then Inl ValueError
                       else Inr (sign * int n)))"

text \<open>
  The decimal digits of a natural number, and the format \<open>{n:0wd}\<close>: the digits of
  \<open>|n|\<close>, filled with zeros on the left up to the width \<open>w\<close>, the sign of a negative
  number first and counted in the width.
\<close>

fun show_nat :: "nat \<Rightarrow> string" where
  "show_nat n =
     (if n < 10 then [''0123456789'' ! n]
      else show_nat (n div 10) @ [''0123456789'' ! (n mod 10)])"

declare show_nat.simps [simp del]

definition format_0d :: "nat \<Rightarrow> int \<Rightarrow> string" where
  "format_0d w n =
     (let ds = show_nat (nat \<bar>n\<bar>)
      in if n < 0 then CHR ''-'' # replicate (w - 1 - length ds) (CHR ''0'') @ ds
         else replicate (w - length ds) (CHR ''0'') @ ds)"

text \<open>
  A colour expression is a list of code points. \<open>str.isspace\<close> on all of Unicode, and
  \<open>str.strip()\<close> with it.
\<close>

definition uspace :: "nat \<Rightarrow> bool" where
  "uspace c =
     ((9 \<le> c \<and> c \<le> 13) \<or> (28 \<le> c \<and> c \<le> 32) \<or> c = 133 \<or> c = 160 \<or> c = 5760
      \<or> (8192 \<le> c \<and> c \<le> 8202) \<or> c = 8232 \<or> c = 8233 \<or> c = 8239 \<or> c = 8287
      \<or> c = 12288)"

definition ustrip :: "nat list \<Rightarrow> nat list" where
  "ustrip s = rev (dropWhile uspace (rev (dropWhile uspace s)))"

text \<open>
  Before it reads a string, \<open>int\<close> replaces every code point from 128 on: a blank
  becomes the ASCII blank, a decimal digit of any script becomes the ASCII digit of its
  value, and any other code point becomes a question mark, which no number contains. The
  decimal value of a code point is given by the Unicode database, which is a parameter
  here (\<open>todecimal\<close>); it is asked about code points from 128 on only.
\<close>

definition to_ascii :: "(nat \<Rightarrow> nat option) \<Rightarrow> nat \<Rightarrow> char" where
  "to_ascii todecimal c =
     (if c < 128 then char_of c
      else if uspace c then CHR '' ''
      else (case todecimal c of
              Some d \<Rightarrow> if d < 10 then ''0123456789'' ! d else CHR ''?''
            | None \<Rightarrow> CHR ''?''))"

definition py_int_unicode :: "(nat \<Rightarrow> nat option) \<Rightarrow> nat \<Rightarrow> nat list \<Rightarrow> py_exception + int" where
  "py_int_unicode todecimal base s = py_int base (map (to_ascii todecimal) s)"

text \<open>The code points of a string of ASCII characters.\<close>

definition code_points :: "string \<Rightarrow> nat list" where
  "code_points s = map of_char s"

text \<open>Words of the specification: a hexadecimal digit, and the byte that two of them write.\<close>

definition is_hex_digit :: "char \<Rightarrow> bool" where
  "is_hex_digit c = (c \<in> set ''0123456789abcdefABCDEF'')"

definition hex_byte :: "char \<Rightarrow> char \<Rightarrow> int" where
  "hex_byte hi lo = int (digit_value hi * 16 + digit_value lo)"

text \<open>
  Words of the specification: a numeric field is a non-empty string of decimal digits, and
  its value is read in base ten.
\<close>

definition is_decimal_digit :: "char \<Rightarrow> bool" where
  "is_decimal_digit c = (c \<in> set ''0123456789'')"

definition is_decimal :: "string \<Rightarrow> bool" where
  "is_decimal s = (s \<noteq> [] \<and> (\<forall>c \<in> set s. is_decimal_digit c))"

definition decimal_value :: "string \<Rightarrow> nat" where
  "decimal_value s = foldl (\<lambda>acc c. acc * 10 + digit_value c) 0 s"

text \<open>
  The characters that a number may be written with besides its digits: a sign, an
  underscore between digits, and blanks around it.
\<close>

definition is_sign_or_blank :: "char \<Rightarrow> bool" where
  "is_sign_or_blank c = (c = CHR ''+'' \<or> c = CHR ''-'' \<or> is_space c)"

subsection \<open>Paths and the file system\<close>

text \<open>
  A \<open>pathlib\<close> path of the POSIX flavour: the anchor (\<open>/\<close> for an absolute path, empty
  for a relative one) and the components after it. \<open>name\<close> is the last component (empty
  when there is none), \<open>parent\<close> drops it (and is the path itself when there is none),
  and \<open>p / q\<close> with a relative \<open>q\<close> appends the components of \<open>q\<close>.
\<close>

datatype path = Path (path_anchor: string) (path_parts: "string list")

definition name :: "path \<Rightarrow> string" where
  "name p = (if path_parts p = [] then [] else last (path_parts p))"

definition parent :: "path \<Rightarrow> path" where
  "parent p = Path (path_anchor p) (butlast (path_parts p))"

definition joinpath :: "path \<Rightarrow> path \<Rightarrow> path" where
  "joinpath p q =
     (if path_anchor q \<noteq> [] then q else Path (path_anchor p) (path_parts p @ path_parts q))"

text \<open>
  \<open>p.relative_to(root)\<close>: the components of \<open>p\<close> after those of \<open>root\<close>, and
  \<open>ValueError\<close> when \<open>root\<close> is not a prefix of \<open>p\<close>.
\<close>

definition relative_to :: "path \<Rightarrow> path \<Rightarrow> py_exception + path" where
  "relative_to p root =
     (if path_anchor p = path_anchor root
         \<and> take (length (path_parts root)) (path_parts p) = path_parts root
      then Inr (Path [] (drop (length (path_parts root)) (path_parts p)))
      else Inl ValueError)"

text \<open>
  \<open>suffix\<close>: the part of the name from its last dot, when that dot is neither the first
  nor the last character. \<open>with_suffix\<close> replaces it; it raises \<open>ValueError\<close> for a
  path without a name and for a suffix that is no extension.
\<close>

definition rfind_dot :: "string \<Rightarrow> nat option" where
  "rfind_dot s =
     (case filter (\<lambda>i. s ! i = CHR ''.'') (rev [0..<length s]) of
        [] \<Rightarrow> None
      | i # _ \<Rightarrow> Some i)"

definition suffix_of_name :: "string \<Rightarrow> string" where
  "suffix_of_name n =
     (case rfind_dot n of
        None \<Rightarrow> []
      | Some i \<Rightarrow> if 0 < i \<and> i < length n - 1 then drop i n else [])"

definition suffix :: "path \<Rightarrow> string" where
  "suffix p = suffix_of_name (name p)"

definition with_suffix :: "path \<Rightarrow> string \<Rightarrow> py_exception + path" where
  "with_suffix p suf =
     (if CHR ''/'' \<in> set suf then Inl ValueError
      else if (suf \<noteq> [] \<and> take 1 suf \<noteq> ''.'') \<or> suf = ''.'' then Inl ValueError
      else if name p = [] then Inl ValueError
      else (let old = suffix p;
                n = (if old = [] then name p @ suf
                     else take (length (name p) - length old) (name p) @ suf)
            in Inr (Path (path_anchor p) (butlast (path_parts p) @ [n]))))"

text \<open>
  The file system maps a path to what is stored there. A stored image file keeps what
  \<open>save\<close> was given: the pixels with their mode and size, the format, and the keyword
  arguments.
\<close>

record saved_file =
  sf_mode :: string
  sf_width :: int
  sf_height :: int
  sf_pixels :: "nat list"
  sf_format :: string
  sf_quality :: "nat option"
  sf_subsampling :: "nat option"
  sf_exif :: "nat list option"

datatype node = Dir | File saved_file

type_synonym filesystem = "path \<Rightarrow> node option"

definition is_file :: "filesystem \<Rightarrow> path \<Rightarrow> bool" where
  "is_file fs p = (case fs p of Some (File _) \<Rightarrow> True | _ \<Rightarrow> False)"

text \<open>
  The path itself and its ancestors that have a component, the shortest first: the
  directories that \<open>mkdir(parents=True, exist_ok=True)\<close> needs, in the order in which
  it makes them.
\<close>

definition ancestors_and_self :: "path \<Rightarrow> path list" where
  "ancestors_and_self p =
     map (\<lambda>k. Path (path_anchor p) (take k (path_parts p))) [1..<Suc (length (path_parts p))]"

fun mkdir_each :: "filesystem \<Rightarrow> path list \<Rightarrow> py_exception + filesystem" where
  "mkdir_each fs [] = Inr fs"
| "mkdir_each fs (d # ds) =
     (case fs d of
        Some (File _) \<Rightarrow> Inl OSError
      | Some Dir \<Rightarrow> mkdir_each fs ds
      | None \<Rightarrow> mkdir_each (fs(d \<mapsto> Dir)) ds)"

definition mkdir_parents_exist_ok :: "filesystem \<Rightarrow> path \<Rightarrow> py_exception + filesystem" where
  "mkdir_parents_exist_ok fs p = mkdir_each fs (ancestors_and_self p)"

subsection \<open>\<open>ensure_output_root\<close> (source lines 59 to 66)\<close>

text \<open>The function returns the output root and leaves the directory made in the file system.\<close>

definition ensure_output_root :: "filesystem \<Rightarrow> path \<Rightarrow> py_exception + path \<times> filesystem" where
  "ensure_output_root fs input_path =
     (let base_dir = (if is_file fs input_path then parent input_path else input_path);
          out_root = joinpath base_dir (Path [] [name base_dir @ ''_watermark''])
      in bind_exc (mkdir_parents_exist_ok fs out_root) (\<lambda>fs'. Inr (out_root, fs')))"

text \<open>Words of the specification: two different paths in the same directory are siblings.\<close>

definition sibling_of :: "path \<Rightarrow> path \<Rightarrow> bool" where
  "sibling_of p q = (parent p = parent q \<and> p \<noteq> q)"

text \<open>A file system for examples: the directory \<open>/a/photos\<close> with one image file.\<close>

definition example_fs :: filesystem where
  "example_fs =
     [Path ''/'' [''a''] \<mapsto> Dir,
      Path ''/'' [''a'', ''photos''] \<mapsto> Dir,
      Path ''/'' [''a'', ''photos'', ''x.jpg''] \<mapsto>
        File \<lparr>sf_mode = ''RGB'', sf_width = 4, sf_height = 3, sf_pixels = [],
              sf_format = ''JPEG'', sf_quality = None, sf_subsampling = None, sf_exif = None\<rparr>]"

subsection \<open>DateTagExtractor: \<open>exif_date_text\<close> (source lines 69 to 86)\<close>

definition EXIF_TAG_DATETIME_ORIGINAL :: nat where
  "EXIF_TAG_DATETIME_ORIGINAL = 36867"

definition EXIF_TAG_DATETIME :: nat where
  "EXIF_TAG_DATETIME = 306"

text \<open>
  A decoded image, by what the source reads of it: mode, size, pixel data, the format of
  the file, the raw EXIF bytes of \<open>info\<close>, and the outcome of \<open>getexif()\<close>, which is
  the mapping from tags to values (in the order stored) or an exception. The values of the
  two date tags are text.
\<close>

record image =
  img_mode :: string
  img_width :: int
  img_height :: int
  img_pixels :: "nat list"
  img_format :: "string option"
  img_info_exif :: "nat list option"
  img_getexif :: "py_exception + (nat \<times> string) list"

text \<open>\<open>a or b\<close> on optional texts: \<open>a\<close> when it is present and not empty.\<close>

definition truthy :: "string option \<Rightarrow> bool" where
  "truthy v = (case v of None \<Rightarrow> False | Some s \<Rightarrow> s \<noteq> [])"

definition py_or :: "string option \<Rightarrow> string option \<Rightarrow> string option" where
  "py_or a b = (if truthy a then a else b)"

text \<open>
  The body of the second \<open>try\<close> (lines 81 to 84). Unpacking into \<open>y, m, d\<close> raises
  \<open>ValueError\<close> unless the slice \<open>[:3]\<close> has exactly three fields.
\<close>

definition date_of_raw :: "string \<Rightarrow> py_exception + string" where
  "date_of_raw raw =
     (case py_split (CHR '' '') raw of
        [] \<Rightarrow> Inl IndexError
      | date_part # _ \<Rightarrow>
          (case take 3 (py_split (CHR '':'') date_part) of
             [y, m, d] \<Rightarrow>
               bind_exc (py_int 10 y) (\<lambda>yi.
               bind_exc (py_int 10 m) (\<lambda>mi.
               bind_exc (py_int 10 d) (\<lambda>di.
                 Inr (format_0d 4 yi @ ''-'' @ format_0d 2 mi @ ''-'' @ format_0d 2 di))))
           | _ \<Rightarrow> Inl ValueError))"

text \<open>Words of the specification: the tag chosen, and the segment before the first blank.\<close>

definition chosen_raw :: "(nat \<times> string) list \<Rightarrow> string option" where
  "chosen_raw m =
     (case map_of m EXIF_TAG_DATETIME_ORIGINAL of
        None \<Rightarrow> map_of m EXIF_TAG_DATETIME
      | Some s \<Rightarrow> if s = [] then map_of m EXIF_TAG_DATETIME else Some s)"

definition date_segment :: "string \<Rightarrow> string" where
  "date_segment raw = takeWhile (\<lambda>c. c \<noteq> CHR '' '') raw"

text \<open>
  \<open>exif_date_text\<close> with its two \<open>try\<close> statements: the first turns an exception of
  \<open>getexif()\<close> into no mapping, the second turns every exception of the conversion into
  no date. Reading a tag of the mapping does not raise.
\<close>

definition exif_date_text :: "image \<Rightarrow> py_exception + string option" where
  "exif_date_text img =
     (let exif = (case img_getexif img of Inl e \<Rightarrow> None | Inr m \<Rightarrow> Some m)
      in case exif of
           None \<Rightarrow> Inr None
         | Some m \<Rightarrow>
             if m = [] then Inr None
             else (let raw = py_or (map_of m EXIF_TAG_DATETIME_ORIGINAL)
                                   (map_of m EXIF_TAG_DATETIME)
                   in case raw of
                        None \<Rightarrow> Inr None
                      | Some r \<Rightarrow>
                          if r = [] then Inr None
                          else (case date_of_raw r of
                                  Inl e \<Rightarrow> Inr None
                                | Inr t \<Rightarrow> Inr (Some t))))"

text \<open>An image for examples: a small JPEG whose \<open>getexif()\<close> has the given outcome.\<close>

definition example_image :: "py_exception + (nat \<times> string) list \<Rightarrow> image" where
  "example_image x =
     \<lparr>img_mode = ''RGB'', img_width = 4, img_height = 3, img_pixels = [],
      img_format = Some ''JPEG'', img_info_exif = None, img_getexif = x\<rparr>"

subsection \<open>ColorSpec: \<open>parse_color\<close> (source lines 105 to 136)\<close>

text \<open>
  What the tool prints: the warning of \<open>parse_color\<close>, and for a file the notice that
  it was skipped, that it was done (source and destination), or that it failed.
  \<open>print\<close> writes to the standard output and raises when the output refuses the text,
  as with \<open>UnicodeEncodeError\<close> for a character that the encoding of the output does
  not have. The console is a parameter: it says for each message whether printing it
  raises, and what.
\<close>

datatype message =
    ColorWarning "nat list"
  | SkipNoDate path
  | Done path path
  | Failed path py_exception

type_synonym console = "message \<Rightarrow> py_exception option"

text \<open>\<open>try: ... except ValueError: pass\<close>: only \<open>ValueError\<close> is caught.\<close>

definition catch_ValueError :: "py_exception + 'a \<Rightarrow> py_exception + 'a option" where
  "catch_ValueError r =
     (case r of
        Inr v \<Rightarrow> Inr (Some v)
      | Inl e \<Rightarrow> if e = ValueError then Inr None else Inl e)"

text \<open>
  The resolver \<open>ImageColor.getcolor(c, "RGBA")\<close> of the imaging library is a parameter:
  it returns a tuple of channels or raises. \<open>hex_argb\<close> and \<open>hex_rgb\<close> are the
  bodies of the two inner \<open>try\<close> statements, \<open>hex_attempt\<close> is the \<open>if\<close> statement
  of lines 108 to 126, whose value \<open>None\<close> stands for falling through to line 128.
  The \<open>print\<close> of line 135 stands in the handler of the last \<open>try\<close>, so what it
  raises leaves \<open>parse_color\<close>. The result of \<open>parse_color\<close> is the tuple and the
  messages printed.
\<close>

definition hex_argb :: "(nat \<Rightarrow> nat option) \<Rightarrow> nat list \<Rightarrow> py_exception + int list" where
  "hex_argb todecimal hexstr =
     bind_exc (py_int_unicode todecimal 16 (slice 0 2 hexstr)) (\<lambda>a.
     bind_exc (py_int_unicode todecimal 16 (slice 2 4 hexstr)) (\<lambda>r.
     bind_exc (py_int_unicode todecimal 16 (slice 4 6 hexstr)) (\<lambda>g.
     bind_exc (py_int_unicode todecimal 16 (slice 6 8 hexstr)) (\<lambda>b.
       Inr [r, g, b, a]))))"

definition hex_rgb :: "(nat \<Rightarrow> nat option) \<Rightarrow> nat list \<Rightarrow> py_exception + int list" where
  "hex_rgb todecimal hexstr =
     bind_exc (py_int_unicode todecimal 16 (slice 0 2 hexstr)) (\<lambda>r.
     bind_exc (py_int_unicode todecimal 16 (slice 2 4 hexstr)) (\<lambda>g.
     bind_exc (py_int_unicode todecimal 16 (slice 4 6 hexstr)) (\<lambda>b.
       Inr [r, g, b, 255])))"

definition hex_attempt :: "(nat \<Rightarrow> nat option) \<Rightarrow> nat list \<Rightarrow> py_exception + int list option" where
  "hex_attempt todecimal c =
     (if take 1 c = code_points ''#'' then
        (let hexstr = drop 1 c
         in if length hexstr = 8 then catch_ValueError (hex_argb todecimal hexstr)
            else if length hexstr = 6 then catch_ValueError (hex_rgb todecimal hexstr)
            else Inr None)
      else Inr None)"

definition parse_color ::
    "(nat \<Rightarrow> nat option) \<Rightarrow> (nat list \<Rightarrow> py_exception + int list) \<Rightarrow> console \<Rightarrow> nat list
       \<Rightarrow> py_exception + int list \<times> message list" where
  "parse_color todecimal getcolor stdout color =
     (let c = ustrip color
      in case hex_attempt todecimal c of
           Inl e \<Rightarrow> Inl e
         | Inr (Some rgba) \<Rightarrow> Inr (rgba, [])
         | Inr None \<Rightarrow>
             (case getcolor c of
                Inl e \<Rightarrow>
                  (case stdout (ColorWarning color) of
                     Some e' \<Rightarrow> Inl e'
                   | None \<Rightarrow> Inr ([255, 255, 255, 255], [ColorWarning color]))
              | Inr rgba \<Rightarrow>
                  Inr (if length rgba = 3 then [rgba ! 0, rgba ! 1, rgba ! 2, 255] else rgba,
                       [])))"

text \<open>
  Words of the specification: a colour expression has the form of 8-digit or 6-digit hex
  when it is \<open>#\<close> followed by eight or six hexadecimal digits.
\<close>

definition is_hex_code_point :: "nat \<Rightarrow> bool" where
  "is_hex_code_point c = (c < 128 \<and> is_hex_digit (char_of c))"

definition hex_form :: "nat list \<Rightarrow> bool" where
  "hex_form c =
     (take 1 c = code_points ''#''
      \<and> (length (drop 1 c) = 8 \<or> length (drop 1 c) = 6)
      \<and> list_all is_hex_code_point (drop 1 c))"

text \<open>
  The same form written with characters that are no hexadecimal digits but may stand in a
  number: a sign, a blank, or a decimal digit of another script.
\<close>

definition is_number_code_point :: "(nat \<Rightarrow> nat option) \<Rightarrow> nat \<Rightarrow> bool" where
  "is_number_code_point todecimal c =
     (is_hex_code_point c \<or> c = 43 \<or> c = 45 \<or> uspace c
      \<or> (128 \<le> c \<and> todecimal c \<noteq> None))"

definition loose_hex_form :: "(nat \<Rightarrow> nat option) \<Rightarrow> nat list \<Rightarrow> bool" where
  "loose_hex_form todecimal c =
     (take 1 c = code_points ''#''
      \<and> (length (drop 1 c) = 8 \<or> length (drop 1 c) = 6)
      \<and> list_all (is_number_code_point todecimal) (drop 1 c))"

text \<open>
  For examples: a resolver that knows the name \<open>red\<close> only, the decimal digits of the
  Arabic-Indic script (code points 1632 to 1641), a console that prints everything, and a
  console whose encoding is ASCII, which cannot encode any message of the tool, since
  each has Chinese text.
\<close>

definition example_getcolor :: "nat list \<Rightarrow> py_exception + int list" where
  "example_getcolor c = (if c = code_points ''red'' then Inr [255, 0, 0, 255] else Inl ValueError)"

definition example_todecimal :: "nat \<Rightarrow> nat option" where
  "example_todecimal c = (if 1632 \<le> c \<and> c \<le> 1641 then Some (c - 1632) else None)"

definition example_console :: console where
  "example_console m = None"

definition ascii_console :: console where
  "ascii_console m = Some UnicodeEncodeError"

subsection \<open>LayoutEngine: \<open>calc_position\<close> (source lines 139 to 149)\<close>

text \<open>
  The branches are tested in the order of the source; every string that is none of the
  four tested ones takes the last branch. Python's \<open>//\<close> on integers is floor division,
  which is \<open>div\<close> on \<^typ>\<open>int\<close>.
\<close>

definition calc_position :: "int \<Rightarrow> int \<Rightarrow> int \<Rightarrow> int \<Rightarrow> string \<Rightarrow> int \<Rightarrow> int \<times> int" where
  "calc_position img_w img_h text_w text_h pos margin =
     (if pos = ''top-left'' then (margin, margin)
      else if pos = ''top-right'' then (max (img_w - text_w - margin) margin, margin)
      else if pos = ''center'' then ((img_w - text_w) div 2, (img_h - text_h) div 2)
      else if pos = ''bottom-left'' then (margin, max (img_h - text_h - margin) margin)
      else (max (img_w - text_w - margin) margin, max (img_h - text_h - margin) margin))"

text \<open>The default value of the parameter \<open>margin\<close>.\<close>

definition default_margin :: int where
  "default_margin = 10"

text \<open>The four corner positions of the \<open>--position\<close> option.\<close>

definition corner_positions :: "string list" where
  "corner_positions = [''top-left'', ''top-right'', ''bottom-left'', ''bottom-right'']"

subsection \<open>Image objects and the imaging library\<close>

text \<open>
  Image objects live in a heap: a reference is an index, a new object is appended, and an
  object that is drawn on is overwritten in place. The world of a run is this heap, the
  file system and the messages printed so far. A program takes the world and returns the
  world it leaves, with a value or the exception it raised. Printing appends a message,
  or raises what the console raises and prints nothing.
\<close>

record world =
  heap :: "image list"
  files :: filesystem
  printed :: "message list"

type_synonym 'a prog = "world \<Rightarrow> (py_exception + 'a) \<times> world"

definition returns :: "'a \<Rightarrow> 'a prog" where
  "returns x w = (Inr x, w)"

definition lift_exc :: "py_exception + 'a \<Rightarrow> 'a prog" where
  "lift_exc r w = (r, w)"

definition bind_prog :: "'a prog \<Rightarrow> ('a \<Rightarrow> 'b prog) \<Rightarrow> 'b prog" where
  "bind_prog p f w =
     (case p w of
        (Inl e, w') \<Rightarrow> (Inl e, w')
      | (Inr x, w') \<Rightarrow> f x w')"

definition alloc :: "image \<Rightarrow> nat prog" where
  "alloc v w = (Inr (length (heap w)), w\<lparr>heap := heap w @ [v]\<rparr>)"

definition get_image :: "nat \<Rightarrow> image prog" where
  "get_image r w =
     (if r < length (heap w) then (Inr (heap w ! r), w)
      else (Inl (OtherException ''no such object''), w))"

definition put_image :: "nat \<Rightarrow> image \<Rightarrow> unit prog" where
  "put_image r v w =
     (if r < length (heap w) then (Inr (), w\<lparr>heap := (heap w)[r := v]\<rparr>)
      else (Inl (OtherException ''no such object''), w))"

definition print_message :: "console \<Rightarrow> message \<Rightarrow> unit prog" where
  "print_message stdout m w =
     (case stdout m of
        Some e \<Rightarrow> (Inl e, w)
      | None \<Rightarrow> (Inr (), w\<lparr>printed := printed w @ [m]\<rparr>))"

text \<open>A font, as \<open>load_font\<close> obtains it: a TrueType file with a size, or the built-in one.\<close>

datatype font = TrueType string int | DefaultFont

text \<open>
  The operations of the imaging library are parameters, and with them the console. Each
  operation gives the value of the image it produces, or raises: \<open>ImageOps.exif_transpose\<close>, \<open>Image.convert\<close>, \<open>Image.new\<close>,
  \<open>ImageDraw.textbbox\<close>, \<open>ImageDraw.text\<close> (the new content of the layer drawn on),
  \<open>Image.alpha_composite\<close>, and for the file transaction \<open>Image.open\<close> and the
  check that \<open>Image.save\<close> makes before it writes. As the library documents them,
  \<open>exif_transpose\<close>, \<open>convert\<close>, \<open>copy\<close>, \<open>new\<close>, \<open>alpha_composite\<close> and
  \<open>open\<close> return a new object and leave their arguments as they are, and drawing
  changes the one image that the drawing context was made for.
\<close>

record pil =
  exif_transpose_value :: "image \<Rightarrow> py_exception + image"
  convert_value :: "image \<Rightarrow> string \<Rightarrow> py_exception + image"
  new_value :: "string \<Rightarrow> int \<times> int \<Rightarrow> int list \<Rightarrow> py_exception + image"
  textbbox_value :: "string \<Rightarrow> font \<Rightarrow> py_exception + int \<times> int \<times> int \<times> int"
  text_value :: "image \<Rightarrow> int \<times> int \<Rightarrow> string \<Rightarrow> font \<Rightarrow> int list \<Rightarrow> py_exception + image"
  alpha_composite_value :: "image \<Rightarrow> image \<Rightarrow> py_exception + image"
  open_value :: "filesystem \<Rightarrow> path \<Rightarrow> py_exception + image"
  save_check :: "filesystem \<Rightarrow> path \<Rightarrow> saved_file \<Rightarrow> py_exception option"
  pil_stdout :: console

text \<open>
  What the documentation of the library promises about modes: transposing keeps the
  mode, converting gives the mode asked for, and a composite of two RGBA images is RGBA.
\<close>

definition pil_modes :: "pil \<Rightarrow> bool" where
  "pil_modes P =
     ((\<forall>v v'. exif_transpose_value P v = Inr v' \<longrightarrow> img_mode v' = img_mode v)
      \<and> (\<forall>v m v'. convert_value P v m = Inr v' \<longrightarrow> img_mode v' = m)
      \<and> (\<forall>a b c. alpha_composite_value P a b = Inr c \<longrightarrow> img_mode c = ''RGBA''))"

text \<open>\<open>draw.text(xy, text, font=font, fill=fill)\<close> on a layer: the layer object is overwritten.\<close>

definition draw_text :: "pil \<Rightarrow> nat \<Rightarrow> int \<times> int \<Rightarrow> string \<Rightarrow> font \<Rightarrow> int list \<Rightarrow> unit prog" where
  "draw_text P layer xy text fnt fill =
     bind_prog (get_image layer) (\<lambda>v.
     bind_prog (lift_exc (text_value P v xy text fnt fill)) (\<lambda>v'.
     put_image layer v'))"

text \<open>\<open>t[i]\<close> on a tuple: \<open>IndexError\<close> beyond its end.\<close>

definition index :: "'a list \<Rightarrow> nat \<Rightarrow> py_exception + 'a" where
  "index xs i = (if i < length xs then Inr (xs ! i) else Inl IndexError)"

subsection \<open>WatermarkRenderer: \<open>draw_watermark\<close> (source lines 152 to 184)\<close>

text \<open>
  The argument \<open>img\<close> and the result are references. The function is given in three
  parts that follow the source in order. Lines 154 to 163: the local variable \<open>img\<close> is
  bound anew to the transposed image (\<open>img0\<close> is the argument, \<open>img1\<close> the new
  binding), \<open>base\<close> is a converted image or a copy, and the text layer is a new
  transparent image. The part returns the mode remembered, \<open>base\<close> and the layer.
\<close>

definition prepare_layers :: "pil \<Rightarrow> nat \<Rightarrow> (string \<times> nat \<times> nat) prog" where
  "prepare_layers P img0 =
     bind_prog (get_image img0) (\<lambda>v0.
     bind_prog (lift_exc (exif_transpose_value P v0)) (\<lambda>t.
     bind_prog (alloc t) (\<lambda>img1.
     bind_prog (get_image img1) (\<lambda>v1.
     let orig_mode = img_mode v1 in
     bind_prog (if orig_mode \<noteq> ''RGBA''
                then bind_prog (lift_exc (convert_value P v1 ''RGBA'')) alloc
                else alloc v1) (\<lambda>base.
     bind_prog (get_image base) (\<lambda>vb.
     bind_prog (lift_exc (new_value P ''RGBA'' (img_width vb, img_height vb) [0, 0, 0, 0]))
       (\<lambda>vt.
     bind_prog (alloc vt) (\<lambda>txt_layer.
     returns (orig_mode, base, txt_layer)))))))))"

text \<open>
  Lines 168 to 179: the text is measured, the anchor computed with the default margin,
  and the text drawn three times on the layer, twice as a shadow.
\<close>

definition draw_layer ::
    "pil \<Rightarrow> nat \<Rightarrow> nat \<Rightarrow> string \<Rightarrow> font \<Rightarrow> int list \<Rightarrow> string \<Rightarrow> unit prog" where
  "draw_layer P base txt_layer text fnt color_rgba position =
     bind_prog (get_image base) (\<lambda>vb.
     bind_prog (lift_exc (textbbox_value P text fnt)) (\<lambda>(b0, b1, b2, b3).
     let text_w = b2 - b0;
         text_h = b3 - b1;
         (x, y) = calc_position (img_width vb) (img_height vb) text_w text_h position
                    default_margin
     in
     bind_prog (lift_exc (index color_rgba 3)) (\<lambda>alpha.
     let shadow = [0, 0, 0, min 120 alpha] in
     bind_prog (draw_text P txt_layer (x + 1, y + 1) text fnt shadow) (\<lambda>_.
     bind_prog (draw_text P txt_layer (x + 2, y + 2) text fnt shadow) (\<lambda>_.
     draw_text P txt_layer (x, y) text fnt color_rgba)))))"

text \<open>Lines 181 to 184: the composite is a new image, converted back when needed.\<close>

definition composite_back :: "pil \<Rightarrow> string \<Rightarrow> nat \<Rightarrow> nat \<Rightarrow> nat prog" where
  "composite_back P orig_mode base txt_layer =
     bind_prog (get_image base) (\<lambda>vb.
     bind_prog (get_image txt_layer) (\<lambda>vl.
     bind_prog (lift_exc (alpha_composite_value P vb vl)) (\<lambda>vo.
     bind_prog (alloc vo) (\<lambda>out.
     if orig_mode \<noteq> ''RGBA''
     then bind_prog (lift_exc (convert_value P vo orig_mode)) alloc
     else returns out))))"

definition draw_watermark ::
    "pil \<Rightarrow> nat \<Rightarrow> string \<Rightarrow> font \<Rightarrow> int list \<Rightarrow> string \<Rightarrow> nat prog" where
  "draw_watermark P img0 text fnt color_rgba position =
     bind_prog (prepare_layers P img0) (\<lambda>(orig_mode, base, txt_layer).
     bind_prog (draw_layer P base txt_layer text fnt color_rgba position) (\<lambda>_.
     composite_back P orig_mode base txt_layer))"

subsection \<open>FileTransaction: \<open>process_file\<close> (source lines 187 to 222)\<close>

text \<open>\<open>str.upper()\<close> on the letters a to z; the format names of the library have no others.\<close>

definition upper_char :: "char \<Rightarrow> char" where
  "upper_char c =
     (let n = (of_char c :: nat) in if 97 \<le> n \<and> n \<le> 122 then char_of (n - 32) else c)"

definition py_upper :: "string \<Rightarrow> string" where
  "py_upper s = map upper_char s"

text \<open>Line 207: \<open>(im.format or "PNG").upper()\<close>.\<close>

definition format_of :: "image \<Rightarrow> string" where
  "format_of im =
     py_upper (case img_format im of
                 None \<Rightarrow> ''PNG''
               | Some f \<Rightarrow> if f = [] then ''PNG'' else f)"

text \<open>\<open>Path(s)\<close> for a name: the empty name gives the path without components.\<close>

definition path_of_name :: "string \<Rightarrow> path" where
  "path_of_name n = Path [] (if n = [] then [] else [n])"

text \<open>Lines 197 to 202: the path of the output, mirrored under the output root.\<close>

definition output_path :: "path \<Rightarrow> path \<Rightarrow> path \<Rightarrow> path" where
  "output_path in_file out_root source_root =
     (let rel_path = (case relative_to in_file source_root of
                        Inl e \<Rightarrow> path_of_name (name in_file)
                      | Inr p \<Rightarrow> p)
      in joinpath out_root rel_path)"

text \<open>
  Lines 211 to 216: the keyword \<open>exif\<close> of \<open>save\<close>. It is the value of
  \<open>im.info.get("exif")\<close> when that is not empty and the format is JPEG or TIFF.
\<close>

definition exif_keyword :: "image \<Rightarrow> string \<Rightarrow> nat list option" where
  "exif_keyword im fmt =
     (case img_info_exif im of
        None \<Rightarrow> None
      | Some exif_bytes \<Rightarrow>
          if exif_bytes \<noteq> [] \<and> (fmt = ''JPEG'' \<or> fmt = ''TIFF'') then Some exif_bytes
          else None)"

definition mkdir :: "path \<Rightarrow> unit prog" where
  "mkdir p w =
     (case mkdir_parents_exist_ok (files w) p of
        Inl e \<Rightarrow> (Inl e, w)
      | Inr fs' \<Rightarrow> (Inr (), w\<lparr>files := fs'\<rparr>))"

definition open_image :: "pil \<Rightarrow> path \<Rightarrow> nat prog" where
  "open_image P p w = bind_prog (lift_exc (open_value P (files w) p)) alloc w"

text \<open>
  \<open>out_img.save(out_path, format=fmt, **save_kwargs)\<close>: when the library accepts the
  request, the file system has at \<open>out_path\<close> a file with what was passed.
\<close>

definition save ::
    "pil \<Rightarrow> nat \<Rightarrow> path \<Rightarrow> string \<Rightarrow> nat option \<Rightarrow> nat option \<Rightarrow> nat list option \<Rightarrow> unit prog" where
  "save P out_img out_path fmt quality subsampling exif =
     bind_prog (get_image out_img) (\<lambda>v w.
       let sf = \<lparr>sf_mode = img_mode v, sf_width = img_width v, sf_height = img_height v,
                 sf_pixels = img_pixels v, sf_format = fmt, sf_quality = quality,
                 sf_subsampling = subsampling, sf_exif = exif\<rparr>
       in case save_check P (files w) out_path sf of
            Some e \<Rightarrow> (Inl e, w)
          | None \<Rightarrow> (Inr (), w\<lparr>files := (files w)(out_path \<mapsto> File sf)\<rparr>))"

text \<open>Lines 196 to 220, after the watermark is drawn: \<open>im\<close> is read again here.\<close>

definition save_output :: "pil \<Rightarrow> path \<Rightarrow> path \<Rightarrow> path \<Rightarrow> nat \<Rightarrow> nat \<Rightarrow> unit prog" where
  "save_output P in_file out_root source_root im out_img =
     (let out_path = output_path in_file out_root source_root in
      bind_prog (mkdir (parent out_path)) (\<lambda>_.
      bind_prog (get_image im) (\<lambda>v.
      let fmt = format_of v;
          quality = (if fmt = ''JPEG'' then Some 95 else None);
          subsampling = (if fmt = ''JPEG'' then Some 2 else None);
          exif = exif_keyword v fmt
      in
      bind_prog (lift_exc (with_suffix out_path (suffix in_file))) (\<lambda>out_path'.
      bind_prog (save P out_img out_path' fmt quality subsampling exif) (\<lambda>_.
      print_message (pil_stdout P) (Done in_file out_path'))))))"

text \<open>The body of the \<open>try\<close> statement, lines 189 to 220.\<close>

definition process_file_body ::
    "pil \<Rightarrow> path \<Rightarrow> path \<Rightarrow> path \<Rightarrow> font \<Rightarrow> int list \<Rightarrow> string \<Rightarrow> unit prog" where
  "process_file_body P in_file out_root source_root fnt color_rgba position =
     bind_prog (open_image P in_file) (\<lambda>im.
     bind_prog (get_image im) (\<lambda>v.
     bind_prog (lift_exc (exif_date_text v)) (\<lambda>date.
     case date of
       None \<Rightarrow> print_message (pil_stdout P) (SkipNoDate in_file)
     | Some text \<Rightarrow>
         if text = [] then print_message (pil_stdout P) (SkipNoDate in_file)
         else bind_prog (draw_watermark P im text fnt color_rgba position) (\<lambda>out_img.
              save_output P in_file out_root source_root im out_img))))"

text \<open>
  \<open>try: ... except Exception as e: print(...)\<close>: every exception of the body is caught
  and reported. The report is printed in the handler, so what this \<open>print\<close> raises
  leaves \<open>process_file\<close>.
\<close>

definition process_file ::
    "pil \<Rightarrow> path \<Rightarrow> path \<Rightarrow> path \<Rightarrow> font \<Rightarrow> int list \<Rightarrow> string \<Rightarrow> unit prog" where
  "process_file P in_file out_root source_root fnt color_rgba position w =
     (case process_file_body P in_file out_root source_root fnt color_rgba position w of
        (Inl e, w') \<Rightarrow> print_message (pil_stdout P) (Failed in_file e) w'
      | (Inr u, w') \<Rightarrow> (Inr u, w'))"

subsection \<open>The loop of \<open>main\<close> over the images (source lines 243 to 246)\<close>

text \<open>
  The paths that \<open>walk_images\<close> yields are given as a list. An exception that left
  \<open>process_file\<close> would end the loop; the result is the final value of \<open>count\<close>.
\<close>

fun process_all ::
    "pil \<Rightarrow> path \<Rightarrow> path \<Rightarrow> font \<Rightarrow> int list \<Rightarrow> string \<Rightarrow> path list \<Rightarrow> nat \<Rightarrow> nat prog" where
  "process_all P out_root source_root fnt color_rgba position [] count = returns count"
| "process_all P out_root source_root fnt color_rgba position (img_path # rest) count =
     bind_prog (process_file P img_path out_root source_root fnt color_rgba position) (\<lambda>_.
     process_all P out_root source_root fnt color_rgba position rest (count + 1))"

text \<open>The file that a message is about.\<close>

fun message_file :: "message \<Rightarrow> path option" where
  "message_file (ColorWarning c) = None"
| "message_file (SkipNoDate p) = Some p"
| "message_file (Done p q) = Some p"
| "message_file (Failed p e) = Some p"

subsection \<open>A small imaging library and a batch, for examples\<close>

text \<open>
  The example library keeps the pixels as they are, records each drawing as one more
  entry of the pixel list, refuses to compose images that are not RGBA, and cannot decode
  a file named \<open>bad.jpg\<close>. Every other file decodes to the same photo of mode RGB with a
  capture date and a raw EXIF block.
\<close>

definition example_photo :: image where
  "example_photo =
     \<lparr>img_mode = ''RGB'', img_width = 640, img_height = 480, img_pixels = [7],
      img_format = Some ''JPEG'', img_info_exif = Some [69, 120, 105, 102, 0, 6],
      img_getexif = Inr [(274, ''6''), (36867, ''2023:07:04 10:20:30'')]\<rparr>"

definition example_pil :: pil where
  "example_pil =
     \<lparr>exif_transpose_value = (\<lambda>v. Inr (v\<lparr>img_info_exif := None\<rparr>)),
      convert_value = (\<lambda>v m. Inr (v\<lparr>img_mode := m\<rparr>)),
      new_value = (\<lambda>m (w, h) c.
         Inr \<lparr>img_mode = m, img_width = w, img_height = h, img_pixels = [],
              img_format = None, img_info_exif = None, img_getexif = Inr []\<rparr>),
      textbbox_value = (\<lambda>t f. Inr (0, 2, 8 * int (length t), 12)),
      text_value = (\<lambda>v xy t f fill. Inr (v\<lparr>img_pixels := img_pixels v @ [length t]\<rparr>)),
      alpha_composite_value = (\<lambda>a b.
         if img_mode a = ''RGBA'' \<and> img_mode b = ''RGBA''
         then Inr (a\<lparr>img_pixels := img_pixels a @ img_pixels b\<rparr>)
         else Inl ValueError),
      open_value = (\<lambda>fs p.
         if name p = ''bad.jpg'' then Inl OSError
         else if is_file fs p then Inr example_photo
         else Inl OSError),
      save_check = (\<lambda>fs p sf. None),
      pil_stdout = example_console\<rparr>"

definition example_world :: world where
  "example_world = \<lparr>heap = [example_photo], files = example_fs, printed = []\<rparr>"

text \<open>The batch of the examples: an undecodable file and the photo of \<open>example_fs\<close>.\<close>

definition example_source_root :: path where
  "example_source_root = Path ''/'' [''a'', ''photos'']"

definition example_out_root :: path where
  "example_out_root = Path ''/'' [''a'', ''photos'', ''photos_watermark'']"

definition example_bad_file :: path where
  "example_bad_file = Path ''/'' [''a'', ''photos'', ''bad.jpg'']"

definition example_in_file :: path where
  "example_in_file = Path ''/'' [''a'', ''photos'', ''x.jpg'']"

definition example_out_file :: path where
  "example_out_file = Path ''/'' [''a'', ''photos'', ''photos_watermark'', ''x.jpg'']"

section \<open>Properties\<close>

subsection \<open>LayoutEngine\<close>

text \<open>
  C5. For each of the four corner positions, for all image and text sizes and the default
  margin (indeed for any margin), both coordinates of the anchor are at least the margin,
  also when the text is wider or taller than the image.
\<close>

theorem calc_position_corner_ge_margin:
  assumes "pos \<in> set corner_positions"
  shows "margin \<le> fst (calc_position img_w img_h text_w text_h pos margin)
       \<and> margin \<le> snd (calc_position img_w img_h text_w text_h pos margin)
       \<and> default_margin \<le> fst (calc_position img_w img_h text_w text_h pos default_margin)
       \<and> default_margin \<le> snd (calc_position img_w img_h text_w text_h pos default_margin)"
  using assms by (auto simp: calc_position_def corner_positions_def)

theorem calc_position_corner_ge_margin_witness:
  "''top-right'' \<in> set corner_positions
   \<and> calc_position 100 80 300 200 ''top-right'' default_margin = (10, 10)
   \<and> default_margin \<le> fst (calc_position 100 80 300 200 ''top-right'' default_margin)
   \<and> default_margin \<le> snd (calc_position 100 80 300 200 ''top-right'' default_margin)"
proof -
  have h: "''top-right'' \<in> set corner_positions"
    by (simp add: corner_positions_def)
  have v: "calc_position 100 80 300 200 ''top-right'' default_margin = (10, 10)"
    by (simp add: calc_position_def default_margin_def)
  from calc_position_corner_ge_margin [OF h, of default_margin 100 80 300 200] h v
  show ?thesis by simp
qed

text \<open>
  C10. \<open>calc_position\<close> returns a value for every position string, and a string that is
  none of \<open>top-left\<close>, \<open>top-right\<close>, \<open>center\<close>, \<open>bottom-left\<close> gets the anchor of
  \<open>bottom-right\<close>.
\<close>

theorem calc_position_unknown_is_bottom_right:
  assumes "pos \<notin> {''top-left'', ''top-right'', ''center'', ''bottom-left''}"
  shows "calc_position img_w img_h text_w text_h pos margin
           = (max (img_w - text_w - margin) margin, max (img_h - text_h - margin) margin)
       \<and> calc_position img_w img_h text_w text_h pos margin
           = calc_position img_w img_h text_w text_h ''bottom-right'' margin"
  using assms by (simp add: calc_position_def)

theorem calc_position_unknown_is_bottom_right_witness:
  "''bottom-rihgt'' \<notin> {''top-left'', ''top-right'', ''center'', ''bottom-left''}
   \<and> calc_position 640 480 100 20 ''bottom-rihgt'' 10 = (530, 450)
   \<and> calc_position 640 480 100 20 ''bottom-rihgt'' 10
       = calc_position 640 480 100 20 ''bottom-right'' 10"
proof -
  have h: "''bottom-rihgt'' \<notin> {''top-left'', ''top-right'', ''center'', ''bottom-left''}"
    by simp
  have v: "calc_position 640 480 100 20 ''bottom-right'' 10 = (530, 450)"
    by (simp add: calc_position_def)
  from calc_position_unknown_is_bottom_right [OF h, of 640 480 100 20 10] h v
  show ?thesis by simp
qed

text \<open>
  C4. The claim says that the anchor of \<open>center\<close> is obtained by a division that
  truncates. The source divides with \<open>//\<close>, which rounds towards minus infinity: for a
  10 by 10 image and a 13 by 13 text the anchor is (-2, -2), while truncation of -3/2
  (\<open>sdiv\<close>, rounding towards zero) gives -1.
\<close>

theorem calc_position_center_truncation_counterexample:
  "calc_position 10 10 13 13 ''center'' 10 \<noteq> ((10 - 13) sdiv 2, (10 - 13) sdiv 2)"
  by (simp add: calc_position_def signed_divide_int_def)

text \<open>
  C4, amended. The anchor of \<open>center\<close> is the pair of the floor halves of the two
  differences, whatever the margin (it is not clamped). Twice the coordinate is the
  difference or one less, so the text is off-center by less than one pixel; the coordinate
  agrees with truncation when the text fits, and it is negative when the text exceeds the
  image.
\<close>

theorem calc_position_center_floor:
  "calc_position img_w img_h text_w text_h ''center'' margin
     = ((img_w - text_w) div 2, (img_h - text_h) div 2)
   \<and> 2 * fst (calc_position img_w img_h text_w text_h ''center'' margin) \<le> img_w - text_w
   \<and> img_w - text_w \<le> 2 * fst (calc_position img_w img_h text_w text_h ''center'' margin) + 1
   \<and> 2 * snd (calc_position img_w img_h text_w text_h ''center'' margin) \<le> img_h - text_h
   \<and> img_h - text_h \<le> 2 * snd (calc_position img_w img_h text_w text_h ''center'' margin) + 1
   \<and> (text_w \<le> img_w \<longrightarrow>
        fst (calc_position img_w img_h text_w text_h ''center'' margin) = (img_w - text_w) sdiv 2)
   \<and> (text_h \<le> img_h \<longrightarrow>
        snd (calc_position img_w img_h text_w text_h ''center'' margin) = (img_h - text_h) sdiv 2)
   \<and> (img_w < text_w \<longrightarrow> fst (calc_position img_w img_h text_w text_h ''center'' margin) < 0)
   \<and> (img_h < text_h \<longrightarrow> snd (calc_position img_w img_h text_w text_h ''center'' margin) < 0)"
proof -
  have c: "calc_position img_w img_h text_w text_h ''center'' margin
     = ((img_w - text_w) div 2, (img_h - text_h) div 2)"
    by (simp add: calc_position_def)
  have t: "0 \<le> k \<Longrightarrow> k div 2 = k sdiv 2" for k :: int
    by (cases "k = 0") (simp_all add: signed_divide_int_def)
  have b: "2 * (k div 2) \<le> k \<and> k \<le> 2 * (k div 2) + 1 \<and> (k < 0 \<longrightarrow> k div 2 < 0)"
    for k :: int
    by presburger
  show ?thesis
    unfolding c using t [of "img_w - text_w"] t [of "img_h - text_h"]
      b [of "img_w - text_w"] b [of "img_h - text_h"] by simp
qed

theorem calc_position_center_floor_witness:
  "calc_position 101 50 20 73 ''center'' 10 = (40, -12)
   \<and> (20::int) \<le> 101 \<and> (40::int) = (101 - 20) sdiv 2 \<and> (50::int) < 73"
  using calc_position_center_floor [of 101 50 20 73 10]
  by (simp add: signed_divide_int_def)

subsection \<open>DateTagExtractor\<close>

lemma char_in_range:
  assumes "lo \<le> (of_char c :: nat)" and "of_char c \<le> (hi :: nat)"
  shows "c \<in> char_of ` {lo..hi}"
proof -
  have "c = char_of (of_char c :: nat)" by simp
  moreover have "(of_char c :: nat) \<in> {lo..hi}" using assms by simp
  ultimately show ?thesis by (metis imageI)
qed

lemma digit_value_decimal:
  assumes "digit_value c < 10"
  shows "is_decimal_digit c"
proof -
  have r: "48 \<le> (of_char c :: nat) \<and> of_char c \<le> (57 :: nat)"
    using assms by (auto simp: digit_value_def Let_def split: if_splits)
  have "{48..57::nat} = {48, 49, 50, 51, 52, 53, 54, 55, 56, 57}" by (auto; arith)
  with char_in_range [of 48 c 57] r
  have "c \<in> char_of ` {48, 49, 50, 51, 52, 53, 54, 55, 56, 57 :: nat}" by simp
  then show ?thesis
    by (auto simp: is_decimal_digit_def char_of_eq_iff)
qed

lemma digit_value_hex:
  assumes "digit_value c < 16"
  shows "is_hex_digit c"
proof -
  have r: "(48 \<le> (of_char c :: nat) \<and> of_char c \<le> (57 :: nat))
      \<or> (97 \<le> (of_char c :: nat) \<and> of_char c \<le> (102 :: nat))
      \<or> (65 \<le> (of_char c :: nat) \<and> of_char c \<le> (70 :: nat))"
    using assms by (auto simp: digit_value_def Let_def split: if_splits)
  have e: "{48..57::nat} = {48, 49, 50, 51, 52, 53, 54, 55, 56, 57}"
    "{97..102::nat} = {97, 98, 99, 100, 101, 102}"
    "{65..70::nat} = {65, 66, 67, 68, 69, 70}" by (auto; arith)+
  from r char_in_range [of 48 c 57] char_in_range [of 97 c 102] char_in_range [of 65 c 70]
  have "c \<in> char_of ` {48, 49, 50, 51, 52, 53, 54, 55, 56, 57 :: nat}
      \<or> c \<in> char_of ` {97, 98, 99, 100, 101, 102 :: nat}
      \<or> c \<in> char_of ` {65, 66, 67, 68, 69, 70 :: nat}"
    unfolding e by blast
  then show ?thesis
    by (auto simp: is_hex_digit_def char_of_eq_iff)
qed

lemma scan_digits_chars:
  "scan_digits base u acc s = Some n \<Longrightarrow> \<forall>c \<in> set s. c = CHR ''_'' \<or> digit_value c < base"
  by (induction s arbitrary: u acc) (auto split: if_splits)

lemma int_space_is_space: "int_space c \<Longrightarrow> is_space c"
  by (auto simp: int_space_def is_space_def Let_def)

lemma strip_covers:
  "\<forall>c \<in> set s. P c \<or> c \<in> set (rev (dropWhile P (rev (dropWhile P s))))"
proof
  fix c assume "c \<in> set s"
  then have "c \<in> set (takeWhile P s) \<or> c \<in> set (dropWhile P s)"
    by (metis Un_iff set_append takeWhile_dropWhile_id)
  moreover have "c \<in> set (dropWhile P s) \<Longrightarrow>
      c \<in> set (takeWhile P (rev (dropWhile P s))) \<or> c \<in> set (dropWhile P (rev (dropWhile P s)))"
    by (metis Un_iff set_append set_rev takeWhile_dropWhile_id)
  ultimately show "P c \<or> c \<in> set (rev (dropWhile P (rev (dropWhile P s))))"
    by (auto dest: set_takeWhileD)
qed

lemma py_int_10_chars:
  assumes "py_int 10 f = Inr v"
  shows "f \<noteq> []"
    and "\<forall>c \<in> set f. is_decimal_digit c \<or> c = CHR ''_'' \<or> is_sign_or_blank c"
proof -
  define s1 where "s1 = rev (dropWhile int_space (rev (dropWhile int_space f)))"
  obtain sg s2 where sg: "(case s1 of
                          c # r \<Rightarrow> if c = CHR ''+'' then (1::int, r)
                                   else if c = CHR ''-'' then (- 1, r)
                                   else (1, s1)
                        | [] \<Rightarrow> (1, s1)) = (sg, s2)"
    by (cases "(case s1 of
                          c # r \<Rightarrow> if c = CHR ''+'' then (1::int, r)
                                   else if c = CHR ''-'' then (- 1, r)
                                   else (1, s1)
                        | [] \<Rightarrow> (1, s1))") auto
  have pre: "strip_base_prefix 10 = (\<lambda>s. s)"
    by (rule ext) (simp add: strip_base_prefix_def split: list.splits)
  have p2: "((10::nat) \<notin> {2, 4, 8, 16, 32}) = True" by simp
  have e: "py_int 10 f =
      (case s2 of
         [] \<Rightarrow> Inl ValueError
       | c # _ \<Rightarrow>
           if c = CHR ''_'' then Inl ValueError
           else (case scan_digits 10 False 0 s2 of
                   None \<Rightarrow> Inl ValueError
                 | Some n \<Rightarrow>
                     if int_max_str_digits < length (filter (\<lambda>c. c \<noteq> CHR ''_'') s2)
                     then Inl ValueError
                     else Inr (sg * int n)))"
    unfolding py_int_def Let_def s1_def [symmetric] sg pre p2 simp_thms prod.case ..
  have "s2 \<noteq> [] \<and> (\<exists>n. scan_digits 10 False 0 s2 = Some n)"
    using assms unfolding e
    by (cases s2) (auto simp del: scan_digits.simps split: if_splits option.splits)
  then obtain n where ne: "s2 \<noteq> []" and scan: "scan_digits 10 False 0 s2 = Some n"
    by blast
  have c1: "\<forall>c \<in> set s1. c = CHR ''+'' \<or> c = CHR ''-'' \<or> c \<in> set s2"
    using sg by (cases s1) (auto split: if_splits)
  have "s1 \<noteq> []" using sg ne by (cases s1) auto
  then show "f \<noteq> []" by (auto simp: s1_def)
  show "\<forall>c \<in> set f. is_decimal_digit c \<or> c = CHR ''_'' \<or> is_sign_or_blank c"
  proof
    fix c assume "c \<in> set f"
    with strip_covers [of f int_space] have "int_space c \<or> c \<in> set s1"
      unfolding s1_def by blast
    then show "is_decimal_digit c \<or> c = CHR ''_'' \<or> is_sign_or_blank c"
    proof
      assume "int_space c"
      then show ?thesis by (simp add: is_sign_or_blank_def int_space_is_space)
    next
      assume "c \<in> set s1"
      with c1 have "c = CHR ''+'' \<or> c = CHR ''-'' \<or> c \<in> set s2" by blast
      with scan_digits_chars [OF scan] show ?thesis
        by (auto simp: is_sign_or_blank_def dest: digit_value_decimal)
    qed
  qed
qed

lemma py_split_hd: "\<exists>rest. py_split sep s = takeWhile (\<lambda>c. c \<noteq> sep) s # rest"
  by (induction s) (auto split: list.splits)

lemma py_split_append:
  assumes "sep \<notin> set a"
  shows "py_split sep (a @ sep # rest) = a # py_split sep rest"
  using assms by (induction a) auto

lemma exif_date_text_chosen:
  assumes "img_getexif img = Inr m"
  shows "exif_date_text img =
           (case chosen_raw m of
              None \<Rightarrow> Inr None
            | Some r \<Rightarrow> if r = [] then Inr None
                        else (case date_of_raw r of Inl e \<Rightarrow> Inr None | Inr t \<Rightarrow> Inr (Some t)))"
proof (cases "m = []")
  case True
  then show ?thesis using assms by (simp add: exif_date_text_def chosen_raw_def)
next
  case False
  then show ?thesis using assms
    by (auto simp: exif_date_text_def chosen_raw_def py_or_def truthy_def Let_def
        split: option.splits)
qed

lemma exif_date_text_returns: "\<exists>d. exif_date_text img = Inr d"
proof (cases "img_getexif img")
  case (Inl e)
  then show ?thesis by (simp add: exif_date_text_def)
next
  case (Inr m)
  show ?thesis
    unfolding exif_date_text_chosen [OF Inr]
    by (auto split: option.splits sum.splits)
qed

lemma date_of_raw_fields:
  "date_of_raw raw =
     (case take 3 (py_split (CHR '':'') (date_segment raw)) of
        [y, m, d] \<Rightarrow>
          bind_exc (py_int 10 y) (\<lambda>yi.
          bind_exc (py_int 10 m) (\<lambda>mi.
          bind_exc (py_int 10 d) (\<lambda>di.
            Inr (format_0d 4 yi @ ''-'' @ format_0d 2 mi @ ''-'' @ format_0d 2 di))))
      | _ \<Rightarrow> Inl ValueError)"
proof -
  obtain rest where "py_split (CHR '' '') raw = date_segment raw # rest"
    unfolding date_segment_def using py_split_hd by blast
  then show ?thesis by (simp add: date_of_raw_def)
qed

lemma decimal_digit_facts:
  assumes "is_decimal_digit c"
  shows "\<not> int_space c" "c \<noteq> CHR ''+''" "c \<noteq> CHR ''-''" "c \<noteq> CHR ''_''" "digit_value c < 10"
  using assms by (auto simp: is_decimal_digit_def int_space_def digit_value_def)

lemma scan_digits_decimal:
  assumes "\<forall>c \<in> set s. is_decimal_digit c" and "s \<noteq> [] \<or> \<not> u"
  shows "scan_digits 10 u acc s = Some (foldl (\<lambda>a c. a * 10 + digit_value c) acc s)"
  using assms
proof (induction s arbitrary: u acc)
  case Nil
  then show ?case by simp
next
  case (Cons c s)
  have "is_decimal_digit c" using Cons.prems(1) by simp
  note c = decimal_digit_facts(4,5) [OF this]
  have "\<forall>c \<in> set s. is_decimal_digit c" using Cons.prems(1) by simp
  from Cons.IH [OF this, of False] have
    "scan_digits 10 False (acc * 10 + digit_value c) s
       = Some (foldl (\<lambda>a c. a * 10 + digit_value c) (acc * 10 + digit_value c) s)"
    by simp
  with c show ?case by simp
qed

lemma py_int_decimal_cases:
  assumes "is_decimal s"
  shows "py_int 10 s = (if int_max_str_digits < length s then Inl ValueError
                        else Inr (int (decimal_value s)))"
proof -
  from assms obtain c cs where s: "s = c # cs" and all: "\<forall>c \<in> set s. is_decimal_digit c"
    by (cases s) (auto simp: is_decimal_def)
  have c: "is_decimal_digit c" using all s by simp
  have d1: "dropWhile int_space s = s"
    using decimal_digit_facts(1) [OF c] s by simp
  have "rev s \<noteq> []" using s by simp
  then obtain l ls where r: "rev s = l # ls" by (cases "rev s") auto
  then have "l \<in> set s" by (metis list.set_intros(1) set_rev)
  then have "\<not> int_space l" using all decimal_digit_facts(1) by blast
  then have d2: "dropWhile int_space (rev s) = rev s" using r by simp
  have strip: "rev (dropWhile int_space (rev (dropWhile int_space s))) = s"
    by (simp add: d1 d2)
  have pre: "strip_base_prefix 10 = (\<lambda>s. s)"
    by (rule ext) (simp add: strip_base_prefix_def split: list.splits)
  have p2: "((10::nat) \<notin> {2, 4, 8, 16, 32}) = True" by simp
  have scan: "scan_digits 10 False 0 s = Some (decimal_value s)"
    unfolding decimal_value_def using scan_digits_decimal [OF all, of False 0] by simp
  have sign: "(case s of [] \<Rightarrow> (1::int, s)
                | c # r \<Rightarrow> if c = CHR ''+'' then (1, r) else if c = CHR ''-'' then (- 1, r) else (1, s))
              = (1, s)"
    using decimal_digit_facts(2,3) [OF c] s by simp
  have flt: "filter (\<lambda>c. c \<noteq> CHR ''_'') s = s"
    using all decimal_digit_facts(4) by (intro filter_True) blast
  have "py_int 10 s =
      (case s of
         [] \<Rightarrow> Inl ValueError
       | c # _ \<Rightarrow>
           if c = CHR ''_'' then Inl ValueError
           else (case scan_digits 10 False 0 s of
                   None \<Rightarrow> Inl ValueError
                 | Some n \<Rightarrow>
                     if int_max_str_digits < length (filter (\<lambda>c. c \<noteq> CHR ''_'') s)
                     then Inl ValueError
                     else Inr (1 * int n)))"
    unfolding py_int_def Let_def strip sign pre p2 simp_thms prod.case ..
  then show ?thesis
    unfolding scan flt using decimal_digit_facts(4) [OF c] by (simp add: s)
qed

lemma py_int_decimal:
  assumes "is_decimal s" and "length s \<le> int_max_str_digits"
  shows "py_int 10 s = Inr (int (decimal_value s))"
  using py_int_decimal_cases [OF assms(1)] assms(2) by simp

lemma py_int_decimal_too_long:
  assumes "is_decimal s" and "int_max_str_digits < length s"
  shows "py_int 10 s = Inl ValueError"
  using py_int_decimal_cases [OF assms(1)] assms(2) by simp


lemma exif_date_text_getexif_raises:
  "img_getexif img = Inl e \<Longrightarrow> exif_date_text img = Inr None"
  by (simp add: exif_date_text_def)

lemma date_of_raw_three_ints:
  assumes "py_split (CHR '':'') (date_segment raw) = y # mo # d # extra"
    and "py_int 10 y = Inr yi" "py_int 10 mo = Inr mi" "py_int 10 d = Inr di"
  shows "date_of_raw raw = Inr (format_0d 4 yi @ ''-'' @ format_0d 2 mi @ ''-'' @ format_0d 2 di)"
  using assms by (simp add: date_of_raw_fields bind_exc_def)

lemma date_of_raw_few_fields:
  assumes "length (py_split (CHR '':'') (date_segment raw)) < 3"
  shows "\<exists>e. date_of_raw raw = Inl e"
proof -
  have "length (take 3 (py_split (CHR '':'') (date_segment raw))) \<noteq> 3"
    using assms by simp
  then show ?thesis
    unfolding date_of_raw_fields
    by (cases "take 3 (py_split (CHR '':'') (date_segment raw))" rule: list.exhaust)
       (auto split: list.splits)
qed

lemma date_of_raw_rejected_field:
  assumes "\<exists>f \<in> set (take 3 (py_split (CHR '':'') (date_segment raw))). isl (py_int 10 f)"
  shows "\<exists>e. date_of_raw raw = Inl e"
  using assms unfolding date_of_raw_fields
  by (auto simp: bind_exc_def isl_def split: list.splits sum.splits)

lemma not_a_number_rejected:
  assumes "f = [] \<or> (\<exists>c \<in> set f. \<not> (is_decimal_digit c \<or> c = CHR ''_'' \<or> is_sign_or_blank c))"
  shows "isl (py_int 10 f)"
proof (cases "py_int 10 f")
  case (Inl e)
  then show ?thesis by simp
next
  case (Inr v)
  from py_int_10_chars [OF Inr] assms show ?thesis by blast
qed


lemma replicate_small:
  "replicate 1 x = [x]" "replicate 2 x = [x, x]" "replicate 3 x = [x, x, x]"
  by (simp_all add: numeral_2_eq_2 numeral_3_eq_3)

lemmas date_eval = replicate_small date_segment_def chosen_raw_def is_decimal_def is_decimal_digit_def
  decimal_value_def digit_value_def format_0d_def show_nat.simps
  EXIF_TAG_DATETIME_ORIGINAL_def EXIF_TAG_DATETIME_def example_image_def
  py_int_def int_space_def strip_base_prefix_def int_max_str_digits_def

lemma long_year_no_date:
  "exif_date_text (example_image
      (Inr [(EXIF_TAG_DATETIME_ORIGINAL, replicate 4301 (CHR ''1'') @ '':07:04'')])) = Inr None"
proof -
  let ?y = "replicate 4301 (CHR ''1'')"
  let ?raw = "?y @ '':07:04''"
  have dec: "is_decimal ?y" by (simp add: is_decimal_def is_decimal_digit_def)
  have long: "int_max_str_digits < length ?y" by (simp add: int_max_str_digits_def)
  have seg: "date_segment ?raw = ?raw"
    unfolding date_segment_def by (rule takeWhile_eq_all_conv [THEN iffD2]) simp
  have "py_split (CHR '':'') ?raw = ?y # py_split (CHR '':'') ''07:04''"
    using py_split_append [of "CHR '':''" ?y "''07:04''"] by simp
  then have f: "py_split (CHR '':'') (date_segment ?raw) = [?y, ''07'', ''04'']"
    by (simp add: seg)
  have "isl (py_int 10 ?y)"
    by (simp add: py_int_decimal_too_long [OF dec long])
  then have "\<exists>e. date_of_raw ?raw = Inl e"
    by (intro date_of_raw_rejected_field) (simp add: f)
  moreover have c: "chosen_raw [(EXIF_TAG_DATETIME_ORIGINAL, ?raw)] = Some ?raw"
    by (simp add: chosen_raw_def)
  moreover have "?raw \<noteq> []" by simp
  ultimately show ?thesis
    using exif_date_text_chosen [of "example_image (Inr [(EXIF_TAG_DATETIME_ORIGINAL, ?raw)])"
        "[(EXIF_TAG_DATETIME_ORIGINAL, ?raw)]"]
    by (auto simp: example_image_def)
qed

text \<open>
  C1. The claim fails in three ways. A value with a wrong field count can give a date: the
  source unpacks the slice \<open>[:3]\<close> of the fields, so \<open>2023:07:04:99\<close>, which has four
  fields, gives \<open>2023-07-04\<close>. Components that are no numbers can give a date: the
  conversion takes a sign and underscores, so \<open>-5:+123:1_0\<close> gives \<open>-005-123-10\<close>.
  And three numeric components can give no date: the conversion refuses more than 4300
  digits, so a year of 4301 digits gives none.
\<close>

theorem exif_date_text_field_count_counterexample:
  "length (py_split (CHR '':'') (date_segment ''2023:07:04:99'')) = 4
   \<and> exif_date_text (example_image (Inr [(EXIF_TAG_DATETIME_ORIGINAL, ''2023:07:04:99'')]))
       = Inr (Some ''2023-07-04'')
   \<and> py_split (CHR '':'') (date_segment ''-5:+123:1_0'') = [''-5'', ''+123'', ''1_0'']
   \<and> \<not> is_decimal ''-5'' \<and> \<not> is_decimal ''+123'' \<and> \<not> is_decimal ''1_0''
   \<and> exif_date_text (example_image (Inr [(EXIF_TAG_DATETIME_ORIGINAL, ''-5:+123:1_0'')]))
       = Inr (Some ''-005-123-10'')
   \<and> is_decimal (replicate 4301 (CHR ''1'')) \<and> is_decimal ''07'' \<and> is_decimal ''04''
   \<and> exif_date_text (example_image
         (Inr [(EXIF_TAG_DATETIME_ORIGINAL, replicate 4301 (CHR ''1'') @ '':07:04'')]))
       = Inr None"
proof -
  have a: "length (py_split (CHR '':'') (date_segment ''2023:07:04:99'')) = 4
   \<and> exif_date_text (example_image (Inr [(EXIF_TAG_DATETIME_ORIGINAL, ''2023:07:04:99'')]))
       = Inr (Some ''2023-07-04'')"
    by (simp add: date_eval exif_date_text_def py_or_def truthy_def date_of_raw_def bind_exc_def)
  have b: "py_split (CHR '':'') (date_segment ''-5:+123:1_0'') = [''-5'', ''+123'', ''1_0'']
   \<and> \<not> is_decimal ''-5'' \<and> \<not> is_decimal ''+123'' \<and> \<not> is_decimal ''1_0''
   \<and> exif_date_text (example_image (Inr [(EXIF_TAG_DATETIME_ORIGINAL, ''-5:+123:1_0'')]))
       = Inr (Some ''-005-123-10'')"
    by (simp add: date_eval exif_date_text_def py_or_def truthy_def date_of_raw_def bind_exc_def)
  have c: "is_decimal (replicate 4301 (CHR ''1'')) \<and> is_decimal ''07'' \<and> is_decimal ''04''"
    by (simp add: is_decimal_def is_decimal_digit_def)
  from a b c long_year_no_date show ?thesis by simp
qed


text \<open>
  C1, amended. \<open>exif_date_text\<close> always returns: it never raises. It returns no date
  when reading the metadata fails, and when the chosen tag (\<open>DateTimeOriginal\<close>, or
  \<open>DateTime\<close> when the former is absent or empty) is absent or empty. When the segment
  of the chosen value before the first blank splits on \<open>:\<close> into at least three fields
  whose first three are non-empty strings of decimal digits, of at most 4300 digits each,
  with the values Y, M and D, it returns Y-M-D with zeros filled in to the widths 4, 2 and
  2; the fields after the third are ignored. It returns no date when there are fewer than
  three fields, and when one of the first three fields is empty or has a character that
  is neither a decimal digit nor a sign, an underscore or a blank.
\<close>

theorem exif_date_text_cases:
  "(\<exists>r. exif_date_text img = Inr r)
   \<and> (img_getexif img = Inl e \<longrightarrow> exif_date_text img = Inr None)
   \<and> (img_getexif img = Inr m \<and> (chosen_raw m = None \<or> chosen_raw m = Some [])
        \<longrightarrow> exif_date_text img = Inr None)
   \<and> (img_getexif img = Inr m \<and> chosen_raw m = Some raw \<and> raw \<noteq> []
        \<and> py_split (CHR '':'') (date_segment raw) = y # mo # d # extra
        \<and> is_decimal y \<and> is_decimal mo \<and> is_decimal d
        \<and> length y \<le> int_max_str_digits \<and> length mo \<le> int_max_str_digits
        \<and> length d \<le> int_max_str_digits
        \<longrightarrow> exif_date_text img
              = Inr (Some (format_0d 4 (int (decimal_value y)) @ ''-''
                      @ format_0d 2 (int (decimal_value mo)) @ ''-''
                      @ format_0d 2 (int (decimal_value d)))))
   \<and> (img_getexif img = Inr m \<and> chosen_raw m = Some raw
        \<and> length (py_split (CHR '':'') (date_segment raw)) < 3
        \<longrightarrow> exif_date_text img = Inr None)
   \<and> (img_getexif img = Inr m \<and> chosen_raw m = Some raw
        \<and> (\<exists>f \<in> set (take 3 (py_split (CHR '':'') (date_segment raw))).
              f = [] \<or> (\<exists>c \<in> set f. \<not> (is_decimal_digit c \<or> c = CHR ''_''
                                          \<or> is_sign_or_blank c)))
        \<longrightarrow> exif_date_text img = Inr None)"
proof (intro conjI impI)
  show "\<exists>r. exif_date_text img = Inr r" by (rule exif_date_text_returns)
next
  assume "img_getexif img = Inl e"
  then show "exif_date_text img = Inr None" by (rule exif_date_text_getexif_raises)
next
  assume "img_getexif img = Inr m \<and> (chosen_raw m = None \<or> chosen_raw m = Some [])"
  then show "exif_date_text img = Inr None"
    by (auto simp: exif_date_text_chosen)
next
  assume a: "img_getexif img = Inr m \<and> chosen_raw m = Some raw \<and> raw \<noteq> []
        \<and> py_split (CHR '':'') (date_segment raw) = y # mo # d # extra
        \<and> is_decimal y \<and> is_decimal mo \<and> is_decimal d
        \<and> length y \<le> int_max_str_digits \<and> length mo \<le> int_max_str_digits
        \<and> length d \<le> int_max_str_digits"
  then have "date_of_raw raw = Inr (format_0d 4 (int (decimal_value y)) @ ''-''
                      @ format_0d 2 (int (decimal_value mo)) @ ''-''
                      @ format_0d 2 (int (decimal_value d)))"
    by (intro date_of_raw_three_ints [of raw y mo d extra]) (simp_all add: py_int_decimal)
  with a show "exif_date_text img
              = Inr (Some (format_0d 4 (int (decimal_value y)) @ ''-''
                      @ format_0d 2 (int (decimal_value mo)) @ ''-''
                      @ format_0d 2 (int (decimal_value d))))"
    by (simp add: exif_date_text_chosen)
next
  assume a: "img_getexif img = Inr m \<and> chosen_raw m = Some raw
        \<and> length (py_split (CHR '':'') (date_segment raw)) < 3"
  then obtain e' where "date_of_raw raw = Inl e'"
    using date_of_raw_few_fields by blast
  with a show "exif_date_text img = Inr None"
    by (simp add: exif_date_text_chosen)
next
  assume a: "img_getexif img = Inr m \<and> chosen_raw m = Some raw
        \<and> (\<exists>f \<in> set (take 3 (py_split (CHR '':'') (date_segment raw))).
              f = [] \<or> (\<exists>c \<in> set f. \<not> (is_decimal_digit c \<or> c = CHR ''_''
                                          \<or> is_sign_or_blank c)))"
  then have "\<exists>f \<in> set (take 3 (py_split (CHR '':'') (date_segment raw))). isl (py_int 10 f)"
    using not_a_number_rejected by blast
  then obtain e' where "date_of_raw raw = Inl e'"
    using date_of_raw_rejected_field by blast
  with a show "exif_date_text img = Inr None"
    by (simp add: exif_date_text_chosen)
qed

theorem exif_date_text_cases_witness:
  "exif_date_text (example_image (Inl OSError)) = Inr None
   \<and> exif_date_text (example_image (Inr [])) = Inr None
   \<and> exif_date_text (example_image (Inr [(36867, ''2023:07:04 10:20:30'')]))
       = Inr (Some ''2023-07-04'')
   \<and> exif_date_text (example_image (Inr [(36867, []), (306, ''1999:1:2:3'')]))
       = Inr (Some ''1999-01-02'')
   \<and> exif_date_text (example_image (Inr [(306, ''2023:07'')])) = Inr None
   \<and> exif_date_text (example_image (Inr [(36867, ''2023/07/04'')])) = Inr None
   \<and> exif_date_text (example_image (Inr [(36867, ''2023:07:4x'')])) = Inr None"
proof -
  have 1: "exif_date_text (example_image (Inl OSError)) = Inr None"
    using exif_date_text_cases [of "example_image (Inl OSError)" OSError]
    by (simp add: example_image_def)
  have 2: "exif_date_text (example_image (Inr [])) = Inr None"
    using exif_date_text_cases [of "example_image (Inr [])" _ "[]"]
    by (simp add: example_image_def chosen_raw_def)
  have 3: "exif_date_text (example_image (Inr [(36867, ''2023:07:04 10:20:30'')]))
      = Inr (Some ''2023-07-04'')"
    using exif_date_text_cases [of "example_image (Inr [(36867, ''2023:07:04 10:20:30'')])" _
        "[(36867, ''2023:07:04 10:20:30'')]" "''2023:07:04 10:20:30''" "''2023''" "''07''" "''04''" "[]"]
    by (simp add: date_eval)
  have 4: "exif_date_text (example_image (Inr [(36867, []), (306, ''1999:1:2:3'')]))
      = Inr (Some ''1999-01-02'')"
    using exif_date_text_cases [of "example_image (Inr [(36867, []), (306, ''1999:1:2:3'')])" _
        "[(36867, []), (306, ''1999:1:2:3'')]" "''1999:1:2:3''" "''1999''" "''1''" "''2''" "[''3'']"]
    by (simp add: date_eval)
  have 5: "exif_date_text (example_image (Inr [(306, ''2023:07'')])) = Inr None"
    using exif_date_text_cases [of "example_image (Inr [(306, ''2023:07'')])" _
        "[(306, ''2023:07'')]" "''2023:07''"]
    by (simp add: date_eval)
  have s: "\<not> is_sign_or_blank (CHR ''/'')"
    by (simp add: is_sign_or_blank_def is_space_def)
  have 6: "exif_date_text (example_image (Inr [(36867, ''2023/07/04'')])) = Inr None"
    using exif_date_text_cases [of "example_image (Inr [(36867, ''2023/07/04'')])" _
        "[(36867, ''2023/07/04'')]" "''2023/07/04''"] s
    by (simp add: date_segment_def chosen_raw_def is_decimal_digit_def
        EXIF_TAG_DATETIME_ORIGINAL_def EXIF_TAG_DATETIME_def example_image_def)
  have x: "\<not> is_sign_or_blank (CHR ''x'')"
    by (simp add: is_sign_or_blank_def is_space_def)
  have 7: "exif_date_text (example_image (Inr [(36867, ''2023:07:4x'')])) = Inr None"
    using exif_date_text_cases [of "example_image (Inr [(36867, ''2023:07:4x'')])" _
        "[(36867, ''2023:07:4x'')]" "''2023:07:4x''"] x
    by (simp add: date_segment_def chosen_raw_def is_decimal_digit_def
        EXIF_TAG_DATETIME_ORIGINAL_def EXIF_TAG_DATETIME_def example_image_def)
  from 1 2 3 4 5 6 7 show ?thesis by simp
qed

subsection \<open>ColorSpec\<close>

lemma hex_digit_facts:
  assumes "is_hex_digit c"
  shows "\<not> is_space c" "\<not> int_space c" "c \<noteq> CHR ''+''" "c \<noteq> CHR ''-''" "c \<noteq> CHR ''_''"
    "c \<noteq> CHR ''x''" "c \<noteq> CHR ''X''" "c \<noteq> CHR ''#''" "digit_value c < 16"
    "(of_char c :: nat) < 128" "\<not> uspace (of_char c)"
  using assms
  by (auto simp: is_hex_digit_def is_space_def int_space_def digit_value_def uspace_def)

lemma py_int_16_pair:
  assumes "is_hex_digit a" "is_hex_digit b"
  shows "py_int 16 [a, b] = Inr (hex_byte a b)"
  using hex_digit_facts [OF assms(1)] hex_digit_facts [OF assms(2)]
  by (simp add: py_int_def strip_base_prefix_def hex_byte_def)

lemma to_ascii_of_char:
  "(of_char c :: nat) < 128 \<Longrightarrow> to_ascii todecimal (of_char c) = c"
  by (simp add: to_ascii_def)

lemma py_int_unicode_16_pair:
  assumes "is_hex_digit a" "is_hex_digit b"
  shows "py_int_unicode todecimal 16 [of_char a, of_char b] = Inr (hex_byte a b)"
  using hex_digit_facts(10) [OF assms(1)] hex_digit_facts(10) [OF assms(2)]
  by (simp add: py_int_unicode_def to_ascii_of_char py_int_16_pair [OF assms])

lemma ustrip_hash:
  assumes "\<forall>c \<in> set h. \<not> uspace c"
  shows "ustrip (35 # h) = 35 # h"
proof -
  have hash: "\<not> uspace 35" by (simp add: uspace_def)
  have "dropWhile uspace (rev (35 # h)) = rev (35 # h)"
    using assms hash by (cases "rev h") (auto simp: dropWhile_append)
  then show ?thesis using hash by (simp add: ustrip_def)
qed

text \<open>
  C2. For a string made of \<open>#\<close> and exactly eight hexadecimal digits, \<open>parse_color\<close>
  reads the first byte as alpha and the next three as red, green and blue, and returns
  (r, g, b, a) without a warning and without asking the resolver; so
  \<open>#80FF0000\<close> gives (255, 0, 0, 128).
\<close>

theorem parse_color_alpha_first:
  assumes "length h = 8" and "\<forall>c \<in> set h. is_hex_digit c"
  shows "parse_color todecimal getcolor stdout (code_points (CHR ''#'' # h))
           = Inr ([hex_byte (h ! 2) (h ! 3), hex_byte (h ! 4) (h ! 5), hex_byte (h ! 6) (h ! 7),
                   hex_byte (h ! 0) (h ! 1)], [])
       \<and> parse_color todecimal getcolor stdout (code_points ''#80FF0000'')
           = Inr ([255, 0, 0, 128], [])"
proof -
  have gen: "parse_color todecimal getcolor stdout (code_points (CHR ''#'' # k))
           = Inr ([hex_byte (k ! 2) (k ! 3), hex_byte (k ! 4) (k ! 5), hex_byte (k ! 6) (k ! 7),
                   hex_byte (k ! 0) (k ! 1)], [])"
    if len: "length k = 8" and hex: "\<forall>c \<in> set k. is_hex_digit c" for k
  proof -
    obtain a b c d e f g i where k: "k = [a, b, c, d, e, f, g, i]"
      using len by (auto simp: length_Suc_conv eval_nat_numeral)
    have cp: "code_points (CHR ''#'' # k) = 35 # map of_char k"
      by (simp add: code_points_def)
    have strip: "ustrip (35 # map of_char k) = 35 # map of_char k"
      using hex by (intro ustrip_hash) (auto dest: hex_digit_facts(11))
    have p: "py_int_unicode todecimal 16 [of_char a, of_char b] = Inr (hex_byte a b)"
      "py_int_unicode todecimal 16 [of_char c, of_char d] = Inr (hex_byte c d)"
      "py_int_unicode todecimal 16 [of_char e, of_char f] = Inr (hex_byte e f)"
      "py_int_unicode todecimal 16 [of_char g, of_char i] = Inr (hex_byte g i)"
      using hex by (simp_all add: k py_int_unicode_16_pair)
    show ?thesis
      unfolding parse_color_def cp strip
      by (simp add: k hex_attempt_def hex_argb_def slice_def p bind_exc_def
          catch_ValueError_def code_points_def)
  qed
  have ex: "\<forall>c \<in> set ''80FF0000''. is_hex_digit c"
    by (simp add: is_hex_digit_def)
  have "parse_color todecimal getcolor stdout (code_points ''#80FF0000'')
      = Inr ([255, 0, 0, 128], [])"
    using gen [of "''80FF0000''", OF _ ex] by (simp add: hex_byte_def digit_value_def)
  with gen [OF assms] show ?thesis by simp
qed

theorem parse_color_alpha_first_witness:
  "length ''40a1B2c3'' = 8
   \<and> parse_color example_todecimal example_getcolor example_console (code_points ''#40a1B2c3'')
       = Inr ([161, 178, 195, 64], [])"
proof -
  have l: "length ''40a1B2c3'' = 8" by simp
  have h: "\<forall>c \<in> set ''40a1B2c3''. is_hex_digit c" by (simp add: is_hex_digit_def)
  from parse_color_alpha_first [OF l h, of example_todecimal example_getcolor example_console] l
  show ?thesis by (simp add: hex_byte_def digit_value_def)
qed


lemma py_int_raises_ValueError: "py_int base s = Inl e \<Longrightarrow> e = ValueError"
  by (auto simp: py_int_def Let_def split: list.splits if_splits option.splits prod.splits)

lemma py_int_16_pair_chars:
  assumes "py_int 16 [a, b] = Inr v"
  shows "(digit_value a < 16 \<or> a = CHR ''+'' \<or> a = CHR ''-'' \<or> int_space a)
       \<and> (digit_value b < 16 \<or> b = CHR ''+'' \<or> b = CHR ''-'' \<or> int_space b)"
  using assms
  by (auto simp: py_int_def strip_base_prefix_def Let_def
      split: if_splits list.splits option.splits)


lemma to_ascii_number_code_point:
  assumes "digit_value (to_ascii todecimal c) < 16 \<or> to_ascii todecimal c = CHR ''+''
           \<or> to_ascii todecimal c = CHR ''-'' \<or> int_space (to_ascii todecimal c)"
  shows "is_number_code_point todecimal c"
proof (cases "c < 128")
  case True
  then have t: "to_ascii todecimal c = char_of c" by (simp add: to_ascii_def)
  have m: "c mod 256 = c" using True by simp
  from assms show ?thesis
    unfolding t
  proof (elim disjE)
    assume "digit_value (char_of c) < 16"
    then have "is_hex_digit (char_of c)" by (rule digit_value_hex)
    with True show ?thesis by (simp add: is_number_code_point_def is_hex_code_point_def)
  next
    assume "char_of c = CHR ''+''"
    then have "c = 43" using m by (simp add: char_of_eq_iff take_bit_eq_mod)
    then show ?thesis by (simp add: is_number_code_point_def)
  next
    assume "char_of c = CHR ''-''"
    then have "c = 45" using m by (simp add: char_of_eq_iff take_bit_eq_mod)
    then show ?thesis by (simp add: is_number_code_point_def)
  next
    assume "int_space (char_of c)"
    then have "uspace c" using m by (auto simp: int_space_def uspace_def Let_def)
    then show ?thesis by (simp add: is_number_code_point_def)
  qed
next
  case False
  show ?thesis
  proof (cases "uspace c")
    case True
    then show ?thesis by (simp add: is_number_code_point_def)
  next
    case ns: False
    show ?thesis
    proof (cases "todecimal c")
      case None
      with False ns have "to_ascii todecimal c = CHR ''?''" by (simp add: to_ascii_def)
      with assms show ?thesis by (simp add: digit_value_def int_space_def)
    next
      case (Some d)
      with False show ?thesis by (simp add: is_number_code_point_def)
    qed
  qed
qed

lemma py_int_unicode_pair_chars:
  assumes "py_int_unicode todecimal 16 [a, b] = Inr v"
  shows "is_number_code_point todecimal a \<and> is_number_code_point todecimal b"
proof -
  from assms have "py_int 16 [to_ascii todecimal a, to_ascii todecimal b] = Inr v"
    by (simp add: py_int_unicode_def)
  from py_int_16_pair_chars [OF this] show ?thesis
    by (simp add: to_ascii_number_code_point)
qed

lemma py_int_unicode_raises_ValueError:
  "py_int_unicode todecimal base s = Inl e \<Longrightarrow> e = ValueError"
  unfolding py_int_unicode_def by (rule py_int_raises_ValueError)

lemma pair_rejected:
  assumes "\<not> (is_number_code_point todecimal a \<and> is_number_code_point todecimal b)"
  shows "py_int_unicode todecimal 16 [a, b] = Inl ValueError"
proof (cases "py_int_unicode todecimal 16 [a, b]")
  case (Inl e)
  then show ?thesis using py_int_unicode_raises_ValueError by blast
next
  case (Inr v)
  from py_int_unicode_pair_chars [OF Inr] assms show ?thesis by blast
qed

lemma catch_ValueError_total:
  assumes "\<And>e. r = Inl e \<Longrightarrow> e = ValueError"
  shows "\<exists>v. catch_ValueError r = Inr v"
  using assms by (cases r) (auto simp: catch_ValueError_def)

lemma hex_argb_raises_ValueError: "hex_argb todecimal s = Inl e \<Longrightarrow> e = ValueError"
  by (auto simp: hex_argb_def bind_exc_def split: sum.splits
      dest: py_int_unicode_raises_ValueError)

lemma hex_rgb_raises_ValueError: "hex_rgb todecimal s = Inl e \<Longrightarrow> e = ValueError"
  by (auto simp: hex_rgb_def bind_exc_def split: sum.splits
      dest: py_int_unicode_raises_ValueError)

lemma hex_attempt_returns: "\<exists>v. hex_attempt todecimal c = Inr v"
  unfolding hex_attempt_def Let_def
  using catch_ValueError_total [of "hex_argb todecimal (drop 1 c)",
      OF hex_argb_raises_ValueError]
    catch_ValueError_total [of "hex_rgb todecimal (drop 1 c)", OF hex_rgb_raises_ValueError]
  by simp

lemma hex_argb_rejected:
  assumes "h = [a, b, c, d, e, f, g, i]" and "\<not> list_all (is_number_code_point todecimal) h"
  shows "hex_argb todecimal h = Inl ValueError"
proof -
  from assms have "\<not> (is_number_code_point todecimal a \<and> is_number_code_point todecimal b)
      \<or> \<not> (is_number_code_point todecimal c \<and> is_number_code_point todecimal d)
      \<or> \<not> (is_number_code_point todecimal e \<and> is_number_code_point todecimal f)
      \<or> \<not> (is_number_code_point todecimal g \<and> is_number_code_point todecimal i)"
    by auto
  then have "\<exists>x. hex_argb todecimal h = Inl x"
    by (auto simp: hex_argb_def assms(1) slice_def bind_exc_def split: sum.splits
        dest: py_int_unicode_pair_chars)
  then show ?thesis using hex_argb_raises_ValueError by blast
qed

lemma hex_rgb_rejected:
  assumes "h = [a, b, c, d, e, f]" and "\<not> list_all (is_number_code_point todecimal) h"
  shows "hex_rgb todecimal h = Inl ValueError"
proof -
  from assms have "\<not> (is_number_code_point todecimal a \<and> is_number_code_point todecimal b)
      \<or> \<not> (is_number_code_point todecimal c \<and> is_number_code_point todecimal d)
      \<or> \<not> (is_number_code_point todecimal e \<and> is_number_code_point todecimal f)"
    by auto
  then have "\<exists>x. hex_rgb todecimal h = Inl x"
    by (auto simp: hex_rgb_def assms(1) slice_def bind_exc_def split: sum.splits
        dest: py_int_unicode_pair_chars)
  then show ?thesis using hex_rgb_raises_ValueError by blast
qed

lemma list_of_length_8:
  "length xs = 8 \<Longrightarrow> \<exists>a b c d e f g i. xs = [a, b, c, d, e, f, g, i]"
  by (auto simp: length_Suc_conv eval_nat_numeral)

lemma list_of_length_6:
  "length xs = 6 \<Longrightarrow> \<exists>a b c d e f. xs = [a, b, c, d, e, f]"
  by (auto simp: length_Suc_conv eval_nat_numeral)

lemma hex_attempt_None:
  assumes "\<not> loose_hex_form todecimal c"
  shows "hex_attempt todecimal c = Inr None"
proof (cases "take 1 c = code_points ''#''")
  case False
  then show ?thesis by (simp add: hex_attempt_def)
next
  case True
  consider "length (drop 1 c) = 8" | "length (drop 1 c) = 6"
    | "length (drop 1 c) \<noteq> 8" "length (drop 1 c) \<noteq> 6" by blast
  then show ?thesis
  proof cases
    case 1
    from list_of_length_8 [OF 1] obtain a b c' d e f g i
      where k: "drop 1 c = [a, b, c', d, e, f, g, i]" by blast
    from assms True 1 have "\<not> list_all (is_number_code_point todecimal) (drop 1 c)"
      by (simp add: loose_hex_form_def)
    from hex_argb_rejected [OF k this] True 1 show ?thesis
      by (simp add: hex_attempt_def catch_ValueError_def)
  next
    case 2
    from list_of_length_6 [OF 2] obtain a b c' d e f
      where k: "drop 1 c = [a, b, c', d, e, f]" by blast
    from assms True 2 have "\<not> list_all (is_number_code_point todecimal) (drop 1 c)"
      by (simp add: loose_hex_form_def)
    from hex_rgb_rejected [OF k this] True 2 show ?thesis
      by (simp add: hex_attempt_def catch_ValueError_def)
  next
    case 3
    with True show ?thesis by (simp add: hex_attempt_def)
  qed
qed


lemma hex_form_loose: "hex_form c \<Longrightarrow> loose_hex_form todecimal c"
  by (auto simp: hex_form_def loose_hex_form_def is_number_code_point_def list_all_iff)

lemma parse_color_cases:
  "parse_color todecimal getcolor stdout color =
     (case hex_attempt todecimal (ustrip color) of
        Inl e \<Rightarrow> Inl e
      | Inr (Some rgba) \<Rightarrow> Inr (rgba, [])
      | Inr None \<Rightarrow>
          (case getcolor (ustrip color) of
             Inl e \<Rightarrow>
               (case stdout (ColorWarning color) of
                  Some e' \<Rightarrow> Inl e'
                | None \<Rightarrow> Inr ([255, 255, 255, 255], [ColorWarning color]))
           | Inr rgba \<Rightarrow>
               Inr (if length rgba = 3 then [rgba ! 0, rgba ! 1, rgba ! 2, 255] else rgba, [])))"
  by (simp add: parse_color_def Let_def)

lemma parse_color_raises:
  assumes "parse_color todecimal getcolor stdout color = Inl e"
  shows "stdout (ColorWarning color) = Some e" and "isl (getcolor (ustrip color))"
proof -
  obtain h where h: "hex_attempt todecimal (ustrip color) = Inr h"
    using hex_attempt_returns by blast
  from assms have "stdout (ColorWarning color) = Some e \<and> isl (getcolor (ustrip color))"
    unfolding parse_color_cases h
    by (cases h; cases "getcolor (ustrip color)"; cases "stdout (ColorWarning color)") auto
  then show "stdout (ColorWarning color) = Some e" and "isl (getcolor (ustrip color))"
    by simp_all
qed

lemma parse_color_returns:
  assumes "stdout (ColorWarning color) = None"
  shows "\<exists>v. parse_color todecimal getcolor stdout color = Inr v"
proof (cases "parse_color todecimal getcolor stdout color")
  case (Inl e)
  from parse_color_raises(1) [OF Inl] assms show ?thesis by simp
next
  case (Inr v)
  then show ?thesis by blast
qed

text \<open>
  C7. The claim fails in two ways. \<open>parse_color\<close> can raise: the warning is printed in
  the handler of the last \<open>try\<close>, so on a console that cannot encode it the
  \<open>UnicodeEncodeError\<close> of \<open>print\<close> leaves the function. And a string that is no
  hex colour and that the resolver does not know can give another colour than white,
  without a warning: the conversion of the pairs takes a sign or a blank in place of a
  digit and the decimal digits of every script, so \<open>#-1-1-1-1\<close> gives
  (-1, -1, -1, -1), \<open># 1 2 3\<close> gives (1, 2, 3, 255), and \<open>#\<close> followed by six
  Arabic-Indic digits three gives (51, 51, 51, 255).
\<close>

theorem parse_color_fallback_counterexample:
  "parse_color example_todecimal example_getcolor ascii_console (code_points ''not-a-color'')
     = Inl UnicodeEncodeError
   \<and> \<not> hex_form (ustrip (code_points ''#-1-1-1-1''))
   \<and> isl (example_getcolor (ustrip (code_points ''#-1-1-1-1'')))
   \<and> parse_color example_todecimal example_getcolor example_console
         (code_points ''#-1-1-1-1'')
       = Inr ([- 1, - 1, - 1, - 1], [])
   \<and> \<not> hex_form (ustrip (code_points ''# 1 2 3''))
   \<and> isl (example_getcolor (ustrip (code_points ''# 1 2 3'')))
   \<and> parse_color example_todecimal example_getcolor example_console
         (code_points ''# 1 2 3'')
       = Inr ([1, 2, 3, 255], [])
   \<and> \<not> hex_form (ustrip [35, 1635, 1635, 1635, 1635, 1635, 1635])
   \<and> isl (example_getcolor (ustrip [35, 1635, 1635, 1635, 1635, 1635, 1635]))
   \<and> parse_color example_todecimal example_getcolor example_console
         [35, 1635, 1635, 1635, 1635, 1635, 1635]
       = Inr ([51, 51, 51, 255], [])"
  by (simp add: parse_color_def hex_attempt_def hex_argb_def hex_rgb_def ustrip_def uspace_def
      code_points_def py_int_unicode_def to_ascii_def char_of_eq_iff example_todecimal_def
      int_space_def slice_def py_int_def strip_base_prefix_def digit_value_def bind_exc_def
      catch_ValueError_def hex_form_def is_hex_code_point_def is_hex_digit_def
      example_getcolor_def ascii_console_def example_console_def)

text \<open>
  C7, amended. \<open>parse_color\<close> raises nothing but what printing the warning raises, and
  it returns whenever the warning can be printed. For every string that, stripped, is not
  \<open>#\<close> followed by eight or six characters that are all hexadecimal digits, signs,
  blanks or decimal digits of another script, and on which the resolver raises,
  \<open>parse_color\<close> prints the warning with the string as it was given, and then returns
  opaque white; when printing raises, that exception leaves \<open>parse_color\<close>.
\<close>

theorem parse_color_total_fallback:
  "(parse_color todecimal getcolor stdout color = Inl e
      \<longrightarrow> stdout (ColorWarning color) = Some e \<and> isl (getcolor (ustrip color)))
   \<and> (stdout (ColorWarning color) = None
        \<longrightarrow> (\<exists>v. parse_color todecimal getcolor stdout color = Inr v))
   \<and> (\<not> loose_hex_form todecimal (ustrip color) \<and> isl (getcolor (ustrip color))
        \<and> stdout (ColorWarning color) = None
        \<longrightarrow> parse_color todecimal getcolor stdout color
              = Inr ([255, 255, 255, 255], [ColorWarning color]))
   \<and> (\<not> loose_hex_form todecimal (ustrip color) \<and> isl (getcolor (ustrip color))
        \<and> stdout (ColorWarning color) = Some e
        \<longrightarrow> parse_color todecimal getcolor stdout color = Inl e)"
proof (intro conjI impI)
  assume "parse_color todecimal getcolor stdout color = Inl e"
  from parse_color_raises [OF this]
  show "stdout (ColorWarning color) = Some e" and "isl (getcolor (ustrip color))" .
next
  assume "stdout (ColorWarning color) = None"
  then show "\<exists>v. parse_color todecimal getcolor stdout color = Inr v"
    by (rule parse_color_returns)
next
  assume a: "\<not> loose_hex_form todecimal (ustrip color) \<and> isl (getcolor (ustrip color))
        \<and> stdout (ColorWarning color) = None"
  then have "hex_attempt todecimal (ustrip color) = Inr None" by (simp add: hex_attempt_None)
  moreover from a obtain x where "getcolor (ustrip color) = Inl x" by (auto simp: isl_def)
  ultimately show "parse_color todecimal getcolor stdout color
      = Inr ([255, 255, 255, 255], [ColorWarning color])"
    using a by (simp add: parse_color_cases)
next
  assume a: "\<not> loose_hex_form todecimal (ustrip color) \<and> isl (getcolor (ustrip color))
        \<and> stdout (ColorWarning color) = Some e"
  then have "hex_attempt todecimal (ustrip color) = Inr None" by (simp add: hex_attempt_None)
  moreover from a obtain x where "getcolor (ustrip color) = Inl x" by (auto simp: isl_def)
  ultimately show "parse_color todecimal getcolor stdout color = Inl e"
    using a by (simp add: parse_color_cases)
qed

theorem parse_color_total_fallback_witness:
  "parse_color example_todecimal example_getcolor example_console (code_points ''not-a-color'')
     = Inr ([255, 255, 255, 255], [ColorWarning (code_points ''not-a-color'')])
   \<and> parse_color example_todecimal example_getcolor example_console
         [35, 65313, 65314, 102, 102, 102, 102]
     = Inr ([255, 255, 255, 255], [ColorWarning [35, 65313, 65314, 102, 102, 102, 102]])
   \<and> parse_color example_todecimal example_getcolor ascii_console (code_points ''not-a-color'')
     = Inl UnicodeEncodeError"
proof -
  have s: "ustrip (code_points ''not-a-color'') = code_points ''not-a-color''"
    "ustrip [35, 65313, 65314, 102, 102, 102, 102] = [35, 65313, 65314, 102, 102, 102, 102]"
    by (simp_all add: ustrip_def uspace_def code_points_def)
  have h: "\<not> loose_hex_form example_todecimal (ustrip (code_points ''not-a-color''))"
    "\<not> loose_hex_form example_todecimal (ustrip [35, 65313, 65314, 102, 102, 102, 102])"
    unfolding s
    by (simp_all add: loose_hex_form_def code_points_def is_number_code_point_def
        is_hex_code_point_def uspace_def example_todecimal_def)
  have g: "isl (example_getcolor (ustrip (code_points ''not-a-color'')))"
    "isl (example_getcolor (ustrip [35, 65313, 65314, 102, 102, 102, 102]))"
    unfolding s by (simp_all add: example_getcolor_def code_points_def)
  have p: "example_console (ColorWarning c) = None"
    "ascii_console (ColorWarning c) = Some UnicodeEncodeError" for c
    by (simp_all add: example_console_def ascii_console_def)
  from parse_color_total_fallback [of example_todecimal example_getcolor example_console
      "code_points ''not-a-color''"]
    parse_color_total_fallback [of example_todecimal example_getcolor example_console
      "[35, 65313, 65314, 102, 102, 102, 102]"]
    parse_color_total_fallback [of example_todecimal example_getcolor ascii_console
      "code_points ''not-a-color''" UnicodeEncodeError]
    h g p
  show ?thesis by simp
qed

subsection \<open>The output root\<close>

lemma mkdir_each_result:
  "mkdir_each fs ds = Inr fs' \<Longrightarrow>
     (\<forall>p. fs p = Some Dir \<longrightarrow> fs' p = Some Dir) \<and> (\<forall>d \<in> set ds. fs' d = Some Dir)
     \<and> (\<forall>p. p \<notin> set ds \<longrightarrow> fs' p = fs p)"
proof (induction ds arbitrary: fs)
  case Nil
  then show ?case by simp
next
  case (Cons d ds)
  show ?case
  proof (cases "fs d")
    case None
    with Cons.prems have "mkdir_each (fs(d \<mapsto> Dir)) ds = Inr fs'" by simp
    from Cons.IH [OF this] None show ?thesis by (auto split: if_splits)
  next
    case (Some n)
    show ?thesis
    proof (cases n)
      case Dir
      with Some Cons.prems have "mkdir_each fs ds = Inr fs'" by simp
      from Cons.IH [OF this] Some Dir show ?thesis by auto
    next
      case (File x)
      with Some Cons.prems show ?thesis by simp
    qed
  qed
qed

lemma mkdir_each_succeeds:
  "\<forall>d \<in> set ds. \<not> is_file fs d \<Longrightarrow> \<exists>fs'. mkdir_each fs ds = Inr fs'"
proof (induction ds arbitrary: fs)
  case Nil
  then show ?case by simp
next
  case (Cons d ds)
  have nf: "\<forall>x \<in> set ds. \<not> is_file (fs(d \<mapsto> Dir)) x"
    using Cons.prems by (auto simp: is_file_def)
  show ?case
  proof (cases "fs d")
    case None
    from Cons.IH [OF nf] obtain fs' where "mkdir_each (fs(d \<mapsto> Dir)) ds = Inr fs'"
      by blast
    with None show ?thesis by simp
  next
    case (Some n)
    from Cons.prems have "\<forall>x \<in> set ds. \<not> is_file fs x" by simp
    from Cons.IH [OF this] obtain fs' where "mkdir_each fs ds = Inr fs'" by blast
    with Some Cons.prems show ?thesis
      by (cases n) (auto simp: is_file_def)
  qed
qed

lemma self_in_ancestors:
  "path_parts p \<noteq> [] \<Longrightarrow> p \<in> set (ancestors_and_self p)"
proof -
  assume "path_parts p \<noteq> []"
  then have "length (path_parts p) \<in> set [1..<Suc (length (path_parts p))]"
    by (cases "path_parts p") auto
  then have "Path (path_anchor p) (take (length (path_parts p)) (path_parts p))
               \<in> set (ancestors_and_self p)"
    unfolding ancestors_and_self_def set_map by (rule imageI)
  then show ?thesis by simp
qed


lemma ensure_output_root_result:
  assumes "ensure_output_root fs input_path = Inr (out_root, fs')"
  defines "base_dir \<equiv> (if is_file fs input_path then parent input_path else input_path)"
  shows "out_root = joinpath base_dir (Path [] [name base_dir @ ''_watermark''])"
    and "name out_root = name base_dir @ ''_watermark''"
    and "parent out_root = base_dir"
    and "fs' out_root = Some Dir"
proof -
  let ?r = "joinpath base_dir (Path [] [name base_dir @ ''_watermark''])"
  from assms(1) have r: "out_root = ?r" and mk: "mkdir_parents_exist_ok fs ?r = Inr fs'"
    by (auto simp: ensure_output_root_def base_dir_def bind_exc_def Let_def split: sum.splits)
  show "out_root = ?r" by (rule r)
  show "name out_root = name base_dir @ ''_watermark''"
    by (simp add: r joinpath_def name_def)
  show "parent out_root = base_dir"
    by (simp add: r joinpath_def parent_def)
  have "path_parts ?r \<noteq> []" by (simp add: joinpath_def)
  then have "?r \<in> set (ancestors_and_self ?r)" by (rule self_in_ancestors)
  with mkdir_each_result [OF mk [unfolded mkdir_parents_exist_ok_def]]
  show "fs' out_root = Some Dir" by (simp add: r)
qed

lemma ensure_output_root_succeeds:
  assumes "\<forall>d \<in> set (ancestors_and_self
              (joinpath base_dir (Path [] [name base_dir @ ''_watermark'']))). \<not> is_file fs d"
    and "base_dir = (if is_file fs input_path then parent input_path else input_path)"
  shows "\<exists>fs'. ensure_output_root fs input_path
           = Inr (joinpath base_dir (Path [] [name base_dir @ ''_watermark'']), fs')"
proof -
  from mkdir_each_succeeds [OF assms(1)] obtain fs' where
    "mkdir_parents_exist_ok fs (joinpath base_dir (Path [] [name base_dir @ ''_watermark'']))
       = Inr fs'"
    unfolding mkdir_parents_exist_ok_def by blast
  then show ?thesis
    using assms(2) by (auto simp: ensure_output_root_def bind_exc_def Let_def)
qed

text \<open>
  C3. The claim says that the output root is a sibling of the input directory, or lies
  alongside the parent of an input file. The source joins the new name to the base
  directory itself, so the output root is a child of it: for the directory
  \<open>/a/photos\<close> and for the file \<open>/a/photos/x.jpg\<close> it is
  \<open>/a/photos/photos_watermark\<close>, which is no sibling of \<open>/a/photos\<close>.
\<close>

theorem ensure_output_root_sibling_counterexample:
  "map_sum id fst (ensure_output_root example_fs (Path ''/'' [''a'', ''photos'']))
     = Inr (Path ''/'' [''a'', ''photos'', ''photos_watermark''])
   \<and> \<not> sibling_of (Path ''/'' [''a'', ''photos'', ''photos_watermark''])
                     (Path ''/'' [''a'', ''photos''])
   \<and> map_sum id fst (ensure_output_root example_fs (Path ''/'' [''a'', ''photos'', ''x.jpg'']))
     = Inr (Path ''/'' [''a'', ''photos'', ''photos_watermark''])
   \<and> \<not> sibling_of (Path ''/'' [''a'', ''photos'', ''photos_watermark''])
                     (parent (Path ''/'' [''a'', ''photos'', ''x.jpg'']))"
  by (simp add: ensure_output_root_def example_fs_def is_file_def parent_def name_def
      joinpath_def mkdir_parents_exist_ok_def ancestors_and_self_def bind_exc_def
      sibling_of_def upt_rec)

text \<open>
  C3, amended. With the base directory being the input directory, or the parent of the
  input when the input is a file, the output root is the child of the base directory
  named after it with \<open>_watermark\<close> appended, and it is a directory when
  \<open>ensure_output_root\<close> returns; it returns whenever no file stands where a directory
  is needed.
\<close>

theorem ensure_output_root_child:
  "(ensure_output_root fs input_path = Inr (out_root, fs') \<longrightarrow>
      name out_root
        = name (if is_file fs input_path then parent input_path else input_path) @ ''_watermark''
      \<and> parent out_root = (if is_file fs input_path then parent input_path else input_path)
      \<and> fs' out_root = Some Dir)
   \<and> ((\<forall>d \<in> set (ancestors_and_self
              (joinpath (if is_file fs input_path then parent input_path else input_path)
                 (Path [] [name (if is_file fs input_path then parent input_path
                                 else input_path) @ ''_watermark'']))).
          \<not> is_file fs d) \<longrightarrow>
        (\<exists>fs''. ensure_output_root fs input_path
           = Inr (joinpath (if is_file fs input_path then parent input_path else input_path)
                    (Path [] [name (if is_file fs input_path then parent input_path
                                    else input_path) @ ''_watermark'']), fs'')))"
proof (intro conjI impI)
  assume a: "ensure_output_root fs input_path = Inr (out_root, fs')"
  from ensure_output_root_result(2) [OF a]
  show "name out_root
        = name (if is_file fs input_path then parent input_path else input_path) @ ''_watermark''" .
  from ensure_output_root_result(3) [OF a]
  show "parent out_root = (if is_file fs input_path then parent input_path else input_path)" .
  from ensure_output_root_result(4) [OF a]
  show "fs' out_root = Some Dir" .
next
  assume "\<forall>d \<in> set (ancestors_and_self
              (joinpath (if is_file fs input_path then parent input_path else input_path)
                 (Path [] [name (if is_file fs input_path then parent input_path
                                 else input_path) @ ''_watermark'']))).
          \<not> is_file fs d"
  from ensure_output_root_succeeds [OF this refl]
  show "\<exists>fs''. ensure_output_root fs input_path
           = Inr (joinpath (if is_file fs input_path then parent input_path else input_path)
                    (Path [] [name (if is_file fs input_path then parent input_path
                                    else input_path) @ ''_watermark'']), fs'')" .
qed

theorem ensure_output_root_child_witness:
  "map_sum id fst (ensure_output_root example_fs (Path ''/'' [''a'', ''photos'', ''x.jpg'']))
     = Inr (Path ''/'' [''a'', ''photos'', ''photos_watermark''])
   \<and> is_file example_fs (Path ''/'' [''a'', ''photos'', ''x.jpg''])
   \<and> name (Path ''/'' [''a'', ''photos'', ''photos_watermark'']) = ''photos_watermark''
   \<and> parent (Path ''/'' [''a'', ''photos'', ''photos_watermark''])
       = parent (Path ''/'' [''a'', ''photos'', ''x.jpg''])"
proof -
  let ?p = "Path ''/'' [''a'', ''photos'', ''x.jpg'']"
  let ?r = "Path ''/'' [''a'', ''photos'', ''photos_watermark'']"
  have f: "is_file example_fs ?p"
    by (simp add: example_fs_def is_file_def)
  have r: "joinpath (if is_file example_fs ?p then parent ?p else ?p)
             (Path [] [name (if is_file example_fs ?p then parent ?p else ?p) @ ''_watermark''])
           = ?r"
    by (simp add: f parent_def name_def joinpath_def)
  have h: "\<forall>d \<in> set (ancestors_and_self ?r). \<not> is_file example_fs d"
    by (simp add: ancestors_and_self_def upt_rec example_fs_def is_file_def)
  from ensure_output_root_child [of example_fs ?p, THEN conjunct2, rule_format] h r
  obtain fs'' where e: "ensure_output_root example_fs ?p = Inr (?r, fs'')"
    by auto
  from ensure_output_root_child [of example_fs ?p ?r fs'', THEN conjunct1, rule_format, OF e] f
  have "name ?r = name (parent ?p) @ ''_watermark'' \<and> parent ?r = parent ?p"
    by simp
  with e f show ?thesis by (simp add: parent_def name_def)
qed

subsection \<open>WatermarkRenderer\<close>

lemmas prog_defs = bind_prog_def returns_def lift_exc_def alloc_def get_image_def put_image_def

lemma prepare_layers_result:
  assumes "prepare_layers P r w = (res, w')" and "r < length (heap w)"
  shows "\<exists>ext. heap w' = heap w @ ext"
    and "files w' = files w" and "printed w' = printed w"
    and "res = Inr (om, base, layer) \<Longrightarrow>
           length (heap w) \<le> base \<and> base < layer \<and> layer < length (heap w')
           \<and> (pil_modes P \<longrightarrow> om = img_mode (heap w ! r))"
  using assms
  by (auto simp: prepare_layers_def prog_defs Let_def nth_append pil_modes_def
      split: sum.splits if_splits prod.splits)


lemma draw_text_result:
  assumes "draw_text P layer xy text fnt fill w = (res, w')"
  shows "length (heap w') = length (heap w)"
    and "\<forall>i. i \<noteq> layer \<longrightarrow> heap w' ! i = heap w ! i"
    and "files w' = files w" and "printed w' = printed w"
  using assms
  by (auto simp: draw_text_def prog_defs split: sum.splits if_splits prod.splits)

lemma draw_layer_result:
  assumes "draw_layer P base layer text fnt color_rgba position w = (res, w')"
  shows "length (heap w') = length (heap w)"
    and "\<forall>i. i \<noteq> layer \<longrightarrow> heap w' ! i = heap w ! i"
    and "files w' = files w" and "printed w' = printed w"
proof -
  have step: "length (heap b) = length (heap a) \<and> (\<forall>i. i \<noteq> layer \<longrightarrow> heap b ! i = heap a ! i)
              \<and> files b = files a \<and> printed b = printed a"
    if "draw_text P layer xy text fnt fill a = (r, b)" for xy fill a r b
    using draw_text_result [OF that] by simp
  have "length (heap w') = length (heap w) \<and> (\<forall>i. i \<noteq> layer \<longrightarrow> heap w' ! i = heap w ! i)
        \<and> files w' = files w \<and> printed w' = printed w"
    using assms
    apply (simp add: draw_layer_def bind_prog_def lift_exc_def get_image_def Let_def
        split: sum.splits if_splits prod.splits)
    apply (auto dest!: step)
    done
  then show "length (heap w') = length (heap w)"
    and "\<forall>i. i \<noteq> layer \<longrightarrow> heap w' ! i = heap w ! i"
    and "files w' = files w" and "printed w' = printed w"
    by simp_all
qed

lemma composite_back_result:
  assumes "composite_back P om base layer w = (res, w')"
  shows "\<exists>ext. heap w' = heap w @ ext"
    and "files w' = files w" and "printed w' = printed w"
    and "res = Inr out \<Longrightarrow>
           length (heap w) \<le> out \<and> out < length (heap w')
           \<and> (pil_modes P \<longrightarrow> img_mode (heap w' ! out) = om)"
  using assms
  by (auto simp: composite_back_def prog_defs Let_def nth_append pil_modes_def
      split: sum.splits if_splits prod.splits)


lemma take_same_except:
  assumes "length ys = length xs" and "\<forall>i. i \<noteq> k \<longrightarrow> ys ! i = xs ! i" and "n \<le> k"
  shows "take n ys = take n xs"
  using assms by (intro nth_equalityI) auto

lemma draw_watermark_result:
  assumes run: "draw_watermark P r text fnt color_rgba position w = (res, w')"
    and r: "r < length (heap w)"
  shows "take (length (heap w)) (heap w') = heap w"
    and "length (heap w) \<le> length (heap w')"
    and "files w' = files w" and "printed w' = printed w"
    and "res = Inr out \<Longrightarrow>
           length (heap w) \<le> out \<and> out < length (heap w')
           \<and> (pil_modes P \<longrightarrow> img_mode (heap w' ! out) = img_mode (heap w ! r))"
proof -
  obtain r1 w1 where p1: "prepare_layers P r w = (r1, w1)" by (cases "prepare_layers P r w")
  note f1 = prepare_layers_result [OF p1 r]
  from f1(1) obtain ext1 where e1: "heap w1 = heap w @ ext1" by blast
  have goal: "take (length (heap w)) (heap w') = heap w \<and> length (heap w) \<le> length (heap w')
      \<and> files w' = files w \<and> printed w' = printed w
      \<and> (\<forall>out. res = Inr out \<longrightarrow>
           length (heap w) \<le> out \<and> out < length (heap w')
           \<and> (pil_modes P \<longrightarrow> img_mode (heap w' ! out) = img_mode (heap w ! r)))"
  proof (cases r1)
    case (Inl e)
    with run p1 have "res = Inl e" "w' = w1"
      by (simp_all add: draw_watermark_def bind_prog_def)
    with f1(2,3) e1 show ?thesis by simp
  next
    case (Inr t)
    obtain om base layer where t: "t = (om, base, layer)" by (cases t)
    note g1 = f1(4) [of om base layer, unfolded Inr t, OF refl]
    obtain r2 w2 where p2: "draw_layer P base layer text fnt color_rgba position w1 = (r2, w2)"
      by (cases "draw_layer P base layer text fnt color_rgba position w1")
    note f2 = draw_layer_result [OF p2]
    have k2: "take (length (heap w)) (heap w2) = heap w"
      using take_same_except [OF f2(1) f2(2), of "length (heap w)"] g1 e1 by simp
    have l2: "length (heap w) \<le> length (heap w2)" using f2(1) e1 by simp
    show ?thesis
    proof (cases r2)
      case (Inl e)
      with run p1 p2 Inr t have "res = Inl e" "w' = w2"
        by (simp_all add: draw_watermark_def bind_prog_def)
      with k2 l2 f1(2,3) f2(3,4) show ?thesis by simp
    next
      case u: (Inr u)
      with run p1 p2 Inr t have p3: "composite_back P om base layer w2 = (res, w')"
        by (simp add: draw_watermark_def bind_prog_def)
      note f3 = composite_back_result [OF p3]
      from f3(1) obtain ext3 where e3: "heap w' = heap w2 @ ext3" by blast
      have "take (length (heap w)) (heap w') = heap w"
        using k2 l2 by (simp add: e3)
      moreover have "length (heap w) \<le> length (heap w')" using l2 by (simp add: e3)
      moreover have "\<forall>out. res = Inr out \<longrightarrow>
           length (heap w) \<le> out \<and> out < length (heap w')
           \<and> (pil_modes P \<longrightarrow> img_mode (heap w' ! out) = img_mode (heap w ! r))"
        using f3(4) g1 l2 by auto
      ultimately show ?thesis using f1(2,3) f2(3,4) f3(2,3) by simp
    qed
  qed
  from goal show "take (length (heap w)) (heap w') = heap w"
    and "length (heap w) \<le> length (heap w')"
    and "files w' = files w" and "printed w' = printed w"
    by simp_all
  from goal show "res = Inr out \<Longrightarrow>
           length (heap w) \<le> out \<and> out < length (heap w')
           \<and> (pil_modes P \<longrightarrow> img_mode (heap w' ! out) = img_mode (heap w ! r))"
    by simp
qed


text \<open>
  C8. \<open>draw_watermark\<close> leaves the image object it is given as it was, and every other
  object that existed before the call, whether it returns or raises: all it writes to are
  objects that it made itself. When it returns, the result is a new object, and, the
  library keeping its promises about modes, the mode of the result is the mode of the
  input.
\<close>

theorem draw_watermark_keeps_input:
  assumes "pil_modes P" and "img < length (heap w)"
    and "draw_watermark P img text fnt color_rgba position w = (res, w')"
  shows "heap w' ! img = heap w ! img
       \<and> take (length (heap w)) (heap w') = heap w
       \<and> (\<forall>out. res = Inr out \<longrightarrow>
             out \<noteq> img \<and> length (heap w) \<le> out \<and> out < length (heap w')
             \<and> img_mode (heap w' ! out) = img_mode (heap w ! img))"
proof -
  note f = draw_watermark_result [OF assms(3) assms(2)]
  have "heap w' ! img = take (length (heap w)) (heap w') ! img"
    using assms(2) by simp
  then have "heap w' ! img = heap w ! img" by (simp add: f(1))
  moreover have "\<forall>out. res = Inr out \<longrightarrow>
             out \<noteq> img \<and> length (heap w) \<le> out \<and> out < length (heap w')
             \<and> img_mode (heap w' ! out) = img_mode (heap w ! img)"
    using f(5) assms(1,2) by auto
  ultimately show ?thesis using f(1) by simp
qed

lemma example_pil_modes: "pil_modes example_pil"
  by (auto simp: pil_modes_def example_pil_def split: if_splits)

lemmas example_run = draw_watermark_def prepare_layers_def draw_layer_def composite_back_def
  draw_text_def index_def prog_defs example_pil_def example_world_def example_photo_def
  calc_position_def default_margin_def

lemma example_draw:
  "draw_watermark example_pil 0 ''2023-07-04'' DefaultFont [255, 255, 255, 128] ''bottom-right''
     example_world
   = (Inr 5, example_world\<lparr>heap :=
        [example_photo,
         example_photo\<lparr>img_info_exif := None\<rparr>,
         example_photo\<lparr>img_info_exif := None, img_mode := ''RGBA''\<rparr>,
         \<lparr>img_mode = ''RGBA'', img_width = 640, img_height = 480, img_pixels = [10, 10, 10],
           img_format = None, img_info_exif = None, img_getexif = Inr []\<rparr>,
         example_photo\<lparr>img_info_exif := None, img_mode := ''RGBA'',
           img_pixels := [7, 10, 10, 10]\<rparr>,
         example_photo\<lparr>img_info_exif := None, img_mode := ''RGB'',
           img_pixels := [7, 10, 10, 10]\<rparr>]\<rparr>)"
  by (simp add: example_run)


theorem draw_watermark_keeps_input_witness:
  "fst (draw_watermark example_pil 0 ''2023-07-04'' DefaultFont [255, 255, 255, 128]
          ''bottom-right'' example_world) = Inr 5
   \<and> heap (snd (draw_watermark example_pil 0 ''2023-07-04'' DefaultFont [255, 255, 255, 128]
          ''bottom-right'' example_world)) ! 0 = example_photo
   \<and> img_mode (heap (snd (draw_watermark example_pil 0 ''2023-07-04'' DefaultFont
          [255, 255, 255, 128] ''bottom-right'' example_world)) ! 5) = ''RGB''"
proof -
  have l: "0 < length (heap example_world)" by (simp add: example_world_def)
  have p: "heap example_world ! 0 = example_photo" by (simp add: example_world_def)
  have m: "img_mode example_photo = ''RGB''" by (simp add: example_photo_def)
  from draw_watermark_keeps_input [OF example_pil_modes l example_draw] p m
  show ?thesis by (simp add: example_draw)
qed

subsection \<open>FileTransaction and the batch\<close>

lemma save_output_result:
  assumes "save_output P in_file out_root source_root im out_img w = (res, w')"
    and "im < length (heap w)"
  shows "heap w' = heap w"
    and "res = Inl e \<Longrightarrow> printed w' = printed w"
    and "res = Inr u \<Longrightarrow>
           \<exists>p sf. printed w' = printed w @ [Done in_file p]
                 \<and> files w' p = Some (File sf)
                 \<and> sf_exif sf = exif_keyword (heap w ! im) (format_of (heap w ! im))
                 \<and> sf_format sf = format_of (heap w ! im)"
  using assms
  by (auto simp: save_output_def save_def mkdir_def print_message_def prog_defs Let_def
      split: sum.splits if_splits prod.splits option.splits)


lemma open_image_result:
  assumes "open_image P in_file w = (res, w')"
  shows "res = Inl e \<Longrightarrow> w' = w"
    and "res = Inr im \<Longrightarrow>
           \<exists>v. open_value P (files w) in_file = Inr v \<and> im = length (heap w)
               \<and> w' = w\<lparr>heap := heap w @ [v]\<rparr>"
  using assms
  by (auto simp: open_image_def prog_defs split: sum.splits)

lemma process_file_body_result:
  assumes run: "process_file_body P in_file out_root source_root fnt color_rgba position w
                  = (res, w')"
  shows "res = Inl e \<Longrightarrow> printed w' = printed w"
    and "res = Inr u \<Longrightarrow>
           printed w' = printed w @ [SkipNoDate in_file]
           \<or> (\<exists>p sf v. open_value P (files w) in_file = Inr v
                 \<and> printed w' = printed w @ [Done in_file p]
                 \<and> files w' p = Some (File sf)
                 \<and> sf_exif sf = exif_keyword v (format_of v)
                 \<and> sf_format sf = format_of v)"
proof -
  obtain r1 w1 where o: "open_image P in_file w = (r1, w1)" by (cases "open_image P in_file w")
  have goal: "(\<forall>e. res = Inl e \<longrightarrow> printed w' = printed w)
      \<and> (\<forall>u. res = Inr u \<longrightarrow>
           printed w' = printed w @ [SkipNoDate in_file]
           \<or> (\<exists>p sf v. open_value P (files w) in_file = Inr v
                 \<and> printed w' = printed w @ [Done in_file p]
                 \<and> files w' p = Some (File sf)
                 \<and> sf_exif sf = exif_keyword v (format_of v)
                 \<and> sf_format sf = format_of v))"
  proof (cases r1)
    case (Inl x)
    with open_image_result(1) [OF o] have "w1 = w" by simp
    with run o Inl show ?thesis by (auto simp: process_file_body_def bind_prog_def)
  next
    case (Inr im)
    from open_image_result(2) [OF o Inr] obtain v where
      v: "open_value P (files w) in_file = Inr v" and im: "im = length (heap w)"
      and w1: "w1 = w\<lparr>heap := heap w @ [v]\<rparr>" by blast
    have g: "get_image im w1 = (Inr v, w1)" by (simp add: get_image_def im w1)
    have skip: ?thesis
      if "process_file_body P in_file out_root source_root fnt color_rgba position w
            = print_message (pil_stdout P) (SkipNoDate in_file) w1"
      using that run by (auto simp: print_message_def w1 split: option.splits)
    obtain date where dt: "exif_date_text v = Inr date"
      using exif_date_text_returns by blast
    show ?thesis
    proof (cases date)
      case None
      with dt o Inr g have "process_file_body P in_file out_root source_root fnt color_rgba position w
            = print_message (pil_stdout P) (SkipNoDate in_file) w1"
        by (simp add: process_file_body_def bind_prog_def lift_exc_def)
      then show ?thesis by (rule skip)
    next
      case (Some dtext)
      show ?thesis
      proof (cases "dtext = []")
        case True
        with Some dt o Inr g have "process_file_body P in_file out_root source_root fnt color_rgba
              position w = print_message (pil_stdout P) (SkipNoDate in_file) w1"
          by (simp add: process_file_body_def bind_prog_def lift_exc_def)
        then show ?thesis by (rule skip)
      next
        case False
        obtain r2 w2 where d: "draw_watermark P im dtext fnt color_rgba position w1 = (r2, w2)"
          by (cases "draw_watermark P im dtext fnt color_rgba position w1")
        have lt: "im < length (heap w1)" by (simp add: im w1)
        note f = draw_watermark_result [OF d lt]
        have h2: "heap w2 ! im = v"
        proof -
          have "heap w2 ! im = take (length (heap w1)) (heap w2) ! im" using lt by simp
          then show ?thesis by (simp add: f(1)) (simp add: im w1)
        qed
        have lt2: "im < length (heap w2)" using lt f(2) by simp
        show ?thesis
        proof (cases r2)
          case (Inl x)
          with run o Inr g Some dt False d have "res = Inl x" "w' = w2"
            by (simp_all add: process_file_body_def bind_prog_def lift_exc_def)
          with f(4) show ?thesis by (simp add: w1)
        next
          case out: (Inr out_img)
          with run o Inr g Some dt False d
          have s: "save_output P in_file out_root source_root im out_img w2 = (res, w')"
            by (simp add: process_file_body_def bind_prog_def lift_exc_def)
          note k = save_output_result [OF s lt2]
          have "\<forall>e. res = Inl e \<longrightarrow> printed w' = printed w"
            using k(2) f(4) by (simp add: w1)
          moreover have "\<forall>u. res = Inr u \<longrightarrow>
             (\<exists>p sf v. open_value P (files w) in_file = Inr v
                 \<and> printed w' = printed w @ [Done in_file p]
                 \<and> files w' p = Some (File sf)
                 \<and> sf_exif sf = exif_keyword v (format_of v)
                 \<and> sf_format sf = format_of v)"
            using k(3) f(4) v h2 by (auto simp: w1)
          ultimately show ?thesis by blast
        qed
      qed
    qed
  qed
  from goal show "res = Inl e \<Longrightarrow> printed w' = printed w" by simp
  from goal show "res = Inr u \<Longrightarrow>
           printed w' = printed w @ [SkipNoDate in_file]
           \<or> (\<exists>p sf v. open_value P (files w) in_file = Inr v
                 \<and> printed w' = printed w @ [Done in_file p]
                 \<and> files w' p = Some (File sf)
                 \<and> sf_exif sf = exif_keyword v (format_of v)
                 \<and> sf_format sf = format_of v)" by simp
qed


lemma process_file_result:
  assumes "process_file P in_file out_root source_root fnt color_rgba position w = (res, w')"
  shows "res = Inl x \<Longrightarrow>
           \<exists>e. process_file_body P in_file out_root source_root fnt color_rgba position w
                   = (Inl e, w')
               \<and> pil_stdout P (Failed in_file e) = Some x"
    and "res = Inr u \<Longrightarrow> \<exists>m. printed w' = printed w @ [m] \<and> message_file m = Some in_file"
    and "process_file_body P in_file out_root source_root fnt color_rgba position w = (Inl e, w1)
           \<Longrightarrow> pil_stdout P (Failed in_file e) = None
           \<Longrightarrow> res = Inr () \<and> printed w' = printed w @ [Failed in_file e]"
    and "process_file_body P in_file out_root source_root fnt color_rgba position w = (Inr u, w1)
           \<Longrightarrow> res = Inr () \<and> w' = w1"
proof -
  obtain rb wb where b: "process_file_body P in_file out_root source_root fnt color_rgba
      position w = (rb, wb)"
    by (cases "process_file_body P in_file out_root source_root fnt color_rgba position w")
  note f = process_file_body_result [OF b]
  have goal: "(\<forall>x. res = Inl x \<longrightarrow>
         (\<exists>e. rb = Inl e \<and> w' = wb \<and> pil_stdout P (Failed in_file e) = Some x))
     \<and> (\<forall>u. res = Inr u \<longrightarrow>
           (\<exists>m. printed w' = printed w @ [m] \<and> message_file m = Some in_file))
     \<and> (\<forall>e. rb = Inl e \<and> pil_stdout P (Failed in_file e) = None
           \<longrightarrow> res = Inr () \<and> printed w' = printed w @ [Failed in_file e])
     \<and> (\<forall>u. rb = Inr u \<longrightarrow> res = Inr () \<and> w' = wb)"
  proof (cases rb)
    case (Inl e0)
    with assms b have p: "print_message (pil_stdout P) (Failed in_file e0) wb = (res, w')"
      by (simp add: process_file_def)
    show ?thesis
    proof (cases "pil_stdout P (Failed in_file e0)")
      case None
      with p have "res = Inr ()" "w' = wb\<lparr>printed := printed wb @ [Failed in_file e0]\<rparr>"
        by (simp_all add: print_message_def)
      with f(1) [OF Inl] Inl None show ?thesis by simp
    next
      case (Some x0)
      with p have "res = Inl x0" "w' = wb" by (simp_all add: print_message_def)
      with Inl Some show ?thesis by simp
    qed
  next
    case (Inr u)
    with assms b have "res = Inr ()" "w' = wb" by (simp_all add: process_file_def)
    with f(2) [OF Inr] Inr show ?thesis by auto
  qed
  from goal b show "res = Inl x \<Longrightarrow>
           \<exists>e. process_file_body P in_file out_root source_root fnt color_rgba position w
                   = (Inl e, w')
               \<and> pil_stdout P (Failed in_file e) = Some x" by auto
  from goal show "res = Inr u \<Longrightarrow>
      \<exists>m. printed w' = printed w @ [m] \<and> message_file m = Some in_file" by simp
  from goal b show "process_file_body P in_file out_root source_root fnt color_rgba position w
      = (Inl e, w1) \<Longrightarrow> pil_stdout P (Failed in_file e) = None
      \<Longrightarrow> res = Inr () \<and> printed w' = printed w @ [Failed in_file e]" by simp
  from goal b show "process_file_body P in_file out_root source_root fnt color_rgba position w
      = (Inr u, w1) \<Longrightarrow> res = Inr () \<and> w' = w1" by simp
qed

lemma process_file_returns:
  assumes "\<And>q x. pil_stdout P (Failed q x) = None"
    and "process_file P in_file out_root source_root fnt color_rgba position w = (res, w')"
  shows "res = Inr ()"
proof (cases res)
  case (Inl x)
  from process_file_result(1) [OF assms(2) Inl] assms(1) show ?thesis by auto
next
  case (Inr u)
  then show ?thesis by simp
qed

lemma process_all_result:
  assumes "\<And>q x. pil_stdout P (Failed q x) = None"
  shows "process_all P out_root source_root fnt color_rgba position paths count w = (res, w')
   \<Longrightarrow> res = Inr (count + length paths)
       \<and> (\<exists>ms. printed w' = printed w @ ms \<and> map message_file ms = map Some paths)"
proof (induction paths arbitrary: count w)
  case Nil
  then show ?case by (simp add: returns_def)
next
  case (Cons p ps)
  obtain r1 w1 where s: "process_file P p out_root source_root fnt color_rgba position w
      = (r1, w1)"
    by (cases "process_file P p out_root source_root fnt color_rgba position w")
  have r1: "r1 = Inr ()" by (rule process_file_returns [OF assms s])
  from process_file_result(2) [OF s r1]
  obtain m where m: "printed w1 = printed w @ [m]" "message_file m = Some p"
    by blast
  from Cons.prems s r1
  have "process_all P out_root source_root fnt color_rgba position ps (count + 1) w1 = (res, w')"
    by (simp add: bind_prog_def)
  from Cons.IH [OF this] obtain ms where
    "res = Inr (count + 1 + length ps)" "printed w' = printed w1 @ ms"
    "map message_file ms = map Some ps" by blast
  with m show ?case by (intro conjI exI [of _ "m # ms"]) simp_all
qed


lemmas example_batch = example_source_root_def example_out_root_def example_bad_file_def
  example_in_file_def example_out_file_def example_fs_def

lemma example_pil_stdout: "pil_stdout example_pil = example_console"
  by (simp add: example_pil_def)

lemma example_bad_body:
  "process_file_body example_pil example_bad_file example_out_root example_source_root
     DefaultFont [255, 255, 255, 128] ''bottom-right'' example_world
   = (Inl OSError, example_world)"
  by (simp add: process_file_body_def open_image_def prog_defs example_pil_def name_def
      example_batch)

lemma example_bad_run:
  "process_file example_pil example_bad_file example_out_root example_source_root
     DefaultFont [255, 255, 255, 128] ''bottom-right'' example_world
   = (Inr (), example_world\<lparr>printed := [Failed example_bad_file OSError]\<rparr>)"
  by (simp add: process_file_def example_bad_body print_message_def example_pil_stdout
      example_console_def)
     (simp add: example_world_def)


lemma example_photo_date: "exif_date_text example_photo = Inr (Some ''2023-07-04'')"
  by (simp add: example_photo_def exif_date_text_def py_or_def truthy_def date_of_raw_def
      bind_exc_def date_eval)

lemma example_photo_format: "format_of example_photo = ''JPEG''"
  by (simp add: format_of_def example_photo_def py_upper_def upper_char_def)

lemma example_suffix: "with_suffix example_out_file (suffix example_in_file) = Inr example_out_file"
  by (simp add: with_suffix_def suffix_def suffix_of_name_def rfind_dot_def name_def
      example_batch upt_rec)

lemma example_output_path:
  "output_path example_in_file example_out_root example_source_root = example_out_file"
  by (simp add: output_path_def relative_to_def joinpath_def example_batch)

lemma example_mkdir:
  "mkdir_parents_exist_ok example_fs (parent example_out_file)
     = Inr (example_fs(example_out_root \<mapsto> Dir))"
  by (simp add: mkdir_parents_exist_ok_def ancestors_and_self_def parent_def upt_rec
      example_batch)


lemma example_good_run:
  "printed (snd (process_file example_pil example_in_file example_out_root example_source_root
     DefaultFont [255, 255, 255, 128] ''bottom-right'' (example_world\<lparr>printed := ms\<rparr>)))
     = ms @ [Done example_in_file example_out_file]
   \<and> files (snd (process_file example_pil example_in_file example_out_root example_source_root
     DefaultFont [255, 255, 255, 128] ''bottom-right'' (example_world\<lparr>printed := ms\<rparr>)))
       example_out_file
     = Some (File \<lparr>sf_mode = ''RGB'', sf_width = 640, sf_height = 480,
          sf_pixels = [7, 10, 10, 10], sf_format = ''JPEG'', sf_quality = Some 95,
          sf_subsampling = Some 2, sf_exif = Some [69, 120, 105, 102, 0, 6]\<rparr>)"
proof -
  have o: "open_value example_pil example_fs example_in_file = Inr example_photo"
    by (simp add: example_pil_def name_def is_file_def example_batch)
  have body: "process_file_body example_pil example_in_file example_out_root example_source_root
      DefaultFont [255, 255, 255, 128] ''bottom-right'' (example_world\<lparr>printed := ms\<rparr>)
    = bind_prog (draw_watermark example_pil 1 ''2023-07-04'' DefaultFont [255, 255, 255, 128]
        ''bottom-right'')
        (save_output example_pil example_in_file example_out_root example_source_root 1)
        (example_world\<lparr>printed := ms, heap := [example_photo, example_photo]\<rparr>)"
    by (simp add: process_file_body_def open_image_def o prog_defs example_world_def
        example_photo_date)
  show ?thesis
    unfolding process_file_def body
    by (simp add: example_run save_output_def save_def mkdir_def print_message_def
        example_console_def
        example_output_path example_mkdir example_suffix exif_keyword_def
        example_photo_format [unfolded example_photo_def] format_of_def py_upper_def
        upper_char_def)
qed


lemma ascii_pil_stdout: "pil_stdout (example_pil\<lparr>pil_stdout := ascii_console\<rparr>) = ascii_console"
  by simp

lemma ascii_bad_body:
  "process_file_body (example_pil\<lparr>pil_stdout := ascii_console\<rparr>) example_bad_file
     example_out_root example_source_root DefaultFont [255, 255, 255, 128] ''bottom-right''
     example_world
   = (Inl OSError, example_world)"
  by (simp add: process_file_body_def open_image_def prog_defs example_pil_def name_def
      example_batch)

lemma ascii_bad_run:
  "process_file (example_pil\<lparr>pil_stdout := ascii_console\<rparr>) example_bad_file
     example_out_root example_source_root DefaultFont [255, 255, 255, 128] ''bottom-right''
     example_world
   = (Inl UnicodeEncodeError, example_world)"
  by (simp add: process_file_def ascii_bad_body print_message_def ascii_console_def)

text \<open>
  C6. The claim fails where the failure cannot be reported. The notice is printed in the
  handler, outside every \<open>try\<close>: on a console whose encoding is ASCII the file that
  does not decode makes \<open>process_file\<close> raise \<open>UnicodeEncodeError\<close>, the loop of
  the batch ends with this exception, and the photo after it is never processed (the
  world is as it was, with no file at the output path).
\<close>

theorem process_file_report_raises_counterexample:
  "process_file (example_pil\<lparr>pil_stdout := ascii_console\<rparr>) example_bad_file
     example_out_root example_source_root DefaultFont [255, 255, 255, 128] ''bottom-right''
     example_world
   = (Inl UnicodeEncodeError, example_world)
   \<and> process_all (example_pil\<lparr>pil_stdout := ascii_console\<rparr>) example_out_root
       example_source_root DefaultFont [255, 255, 255, 128] ''bottom-right''
       [example_bad_file, example_in_file] 0 example_world
     = (Inl UnicodeEncodeError, example_world)
   \<and> files example_world example_out_file = None"
  by (simp add: ascii_bad_run bind_prog_def)
     (simp add: example_world_def example_batch)

text \<open>
  C6, amended. Every exception raised while handling the file (at decoding, date
  extraction, rendering, making the directory, saving, or printing the outcome) is caught
  inside \<open>process_file\<close>, from every world, for every file and every behaviour of
  the imaging library: an exception leaves \<open>process_file\<close> only when the handling
  raised and printing the failure notice raised in turn, and it is what that print
  raised. When the failure notices can be printed, \<open>process_file\<close> returns normally;
  when the handling of the file raised, nothing was printed for the file before and the
  failure is printed with the path and the error; and the loop over a batch never ends
  early: it counts every path, goes on with the remaining paths in the world that the
  first file left, and prints exactly one message for each path, in order.
\<close>

theorem process_file_isolates_failures:
  "(fst (process_file P in_file out_root source_root fnt color_rgba position w) = Inl x
      \<longrightarrow> (\<exists>e0. fst (process_file_body P in_file out_root source_root fnt color_rgba
                         position w) = Inl e0
                \<and> pil_stdout P (Failed in_file e0) = Some x))
   \<and> ((\<forall>q y. pil_stdout P (Failed q y) = None) \<longrightarrow>
       fst (process_file P in_file out_root source_root fnt color_rgba position w) = Inr ()
       \<and> (process_file_body P in_file out_root source_root fnt color_rgba position w
            = (Inl e, w1)
            \<longrightarrow> printed (snd (process_file P in_file out_root source_root fnt color_rgba
                                 position w))
                  = printed w @ [Failed in_file e])
       \<and> fst (process_all P out_root source_root fnt color_rgba position paths count w)
           = Inr (count + length paths)
       \<and> map message_file
             (drop (length (printed w))
                (printed (snd (process_all P out_root source_root fnt color_rgba position
                                 paths count w))))
           = map Some paths
       \<and> snd (process_all P out_root source_root fnt color_rgba position (in_file # paths)
                count w)
           = snd (process_all P out_root source_root fnt color_rgba position paths (count + 1)
                    (snd (process_file P in_file out_root source_root fnt color_rgba
                            position w))))"
proof (intro conjI impI)
  obtain r w' where f: "process_file P in_file out_root source_root fnt color_rgba position w
      = (r, w')"
    by (cases "process_file P in_file out_root source_root fnt color_rgba position w")
  obtain ra wa where a: "process_all P out_root source_root fnt color_rgba position paths
      count w = (ra, wa)"
    by (cases "process_all P out_root source_root fnt color_rgba position paths count w")
  {
    assume "fst (process_file P in_file out_root source_root fnt color_rgba position w) = Inl x"
    with f have "r = Inl x" by simp
    from process_file_result(1) [OF f this]
    show "\<exists>e0. fst (process_file_body P in_file out_root source_root fnt color_rgba
                         position w) = Inl e0
                \<and> pil_stdout P (Failed in_file e0) = Some x"
      by auto
  }
  {
    assume "\<forall>q y. pil_stdout P (Failed q y) = None"
    then have quiet: "pil_stdout P (Failed q y) = None" for q y by simp
    have r: "r = Inr ()" by (rule process_file_returns [OF quiet f])
    from process_all_result [OF quiet a] obtain ms where
      ra: "ra = Inr (count + length paths)" and ms: "printed wa = printed w @ ms"
      "map message_file ms = map Some paths" by blast
    show "fst (process_file P in_file out_root source_root fnt color_rgba position w) = Inr ()"
      using r f by simp
    {
      assume "process_file_body P in_file out_root source_root fnt color_rgba position w
               = (Inl e, w1)"
      from process_file_result(3) [OF f this quiet] f
      show "printed (snd (process_file P in_file out_root source_root fnt color_rgba
                                 position w))
                  = printed w @ [Failed in_file e]"
        by simp
    }
    show "fst (process_all P out_root source_root fnt color_rgba position paths count w)
           = Inr (count + length paths)"
      using a ra by simp
    show "map message_file
             (drop (length (printed w))
                (printed (snd (process_all P out_root source_root fnt color_rgba position
                                 paths count w))))
           = map Some paths"
      using a ms by simp
    show "snd (process_all P out_root source_root fnt color_rgba position (in_file # paths)
                count w)
           = snd (process_all P out_root source_root fnt color_rgba position paths (count + 1)
                    (snd (process_file P in_file out_root source_root fnt color_rgba
                            position w)))"
      using r f by (simp add: bind_prog_def)
  }
qed

theorem process_file_isolates_failures_witness:
  "printed (snd (process_all example_pil example_out_root example_source_root DefaultFont
      [255, 255, 255, 128] ''bottom-right'' [example_bad_file, example_in_file] 0 example_world))
     = [Failed example_bad_file OSError, Done example_in_file example_out_file]
   \<and> fst (process_all example_pil example_out_root example_source_root DefaultFont
      [255, 255, 255, 128] ''bottom-right'' [example_bad_file, example_in_file] 0 example_world)
     = Inr 2
   \<and> fst (process_file_body (example_pil\<lparr>pil_stdout := ascii_console\<rparr>) example_bad_file
       example_out_root example_source_root DefaultFont [255, 255, 255, 128] ''bottom-right''
       example_world) = Inl OSError
   \<and> ascii_console (Failed example_bad_file OSError) = Some UnicodeEncodeError"
proof -
  have quiet: "\<forall>q y. pil_stdout example_pil (Failed q y) = None"
    by (simp add: example_pil_stdout example_console_def)
  note t = process_file_isolates_failures [of example_pil example_bad_file example_out_root
      example_source_root DefaultFont "[255, 255, 255, 128]" "''bottom-right''" example_world
      _ OSError example_world "[example_in_file]" 0]
  from t quiet example_bad_body have
    b: "printed (snd (process_file example_pil example_bad_file example_out_root
          example_source_root DefaultFont [255, 255, 255, 128] ''bottom-right'' example_world))
        = printed example_world @ [Failed example_bad_file OSError]"
    by blast
  have w: "snd (process_file example_pil example_bad_file example_out_root
          example_source_root DefaultFont [255, 255, 255, 128] ''bottom-right'' example_world)
        = example_world\<lparr>printed := [Failed example_bad_file OSError]\<rparr>"
    by (simp add: example_bad_run)
  from t quiet have
    "snd (process_all example_pil example_out_root example_source_root DefaultFont
       [255, 255, 255, 128] ''bottom-right'' [example_bad_file, example_in_file] 0 example_world)
     = snd (process_all example_pil example_out_root example_source_root DefaultFont
       [255, 255, 255, 128] ''bottom-right'' [example_in_file] (0 + 1)
       (example_world\<lparr>printed := [Failed example_bad_file OSError]\<rparr>))"
    unfolding w by blast
  moreover have "printed (snd (process_all example_pil example_out_root example_source_root
       DefaultFont [255, 255, 255, 128] ''bottom-right'' [example_in_file] (0 + 1)
       (example_world\<lparr>printed := [Failed example_bad_file OSError]\<rparr>)))
     = [Failed example_bad_file OSError, Done example_in_file example_out_file]"
  proof -
    obtain r1 w1' where pf: "process_file example_pil example_in_file example_out_root
        example_source_root DefaultFont [255, 255, 255, 128] ''bottom-right''
        (example_world\<lparr>printed := [Failed example_bad_file OSError]\<rparr>) = (r1, w1')"
      by (cases "process_file example_pil example_in_file example_out_root
        example_source_root DefaultFont [255, 255, 255, 128] ''bottom-right''
        (example_world\<lparr>printed := [Failed example_bad_file OSError]\<rparr>)")
    have "r1 = Inr ()" using quiet by (intro process_file_returns [OF _ pf]) simp
    with pf have "snd (process_all example_pil example_out_root example_source_root
       DefaultFont [255, 255, 255, 128] ''bottom-right'' [example_in_file] (0 + 1)
       (example_world\<lparr>printed := [Failed example_bad_file OSError]\<rparr>)) = w1'"
      by (simp add: bind_prog_def returns_def)
    moreover have "printed w1'
        = [Failed example_bad_file OSError, Done example_in_file example_out_file]"
      using example_good_run [of "[Failed example_bad_file OSError]"] pf by simp
    ultimately show ?thesis by simp
  qed
  moreover have "fst (process_all example_pil example_out_root example_source_root DefaultFont
      [255, 255, 255, 128] ''bottom-right'' [example_bad_file, example_in_file] 0 example_world)
     = Inr 2"
    using process_file_isolates_failures [of example_pil example_bad_file example_out_root
      example_source_root DefaultFont "[255, 255, 255, 128]" "''bottom-right''" example_world
      _ OSError example_world "[example_bad_file, example_in_file]" 0] quiet
    by simp
  moreover have "fst (process_file_body (example_pil\<lparr>pil_stdout := ascii_console\<rparr>)
       example_bad_file example_out_root example_source_root DefaultFont [255, 255, 255, 128]
       ''bottom-right'' example_world) = Inl OSError"
    by (simp add: ascii_bad_body)
  moreover have "ascii_console (Failed example_bad_file OSError) = Some UnicodeEncodeError"
    by (simp add: ascii_console_def)
  ultimately show ?thesis by simp
qed


text \<open>
  C9. When the file decodes to an image of format JPEG or TIFF whose \<open>info\<close> has a
  non-empty raw EXIF block, and \<open>process_file\<close> reports the file as done with the
  output path, then the file stored at the output path was saved with exactly this block
  as its \<open>exif\<close> argument: the block is read from the opened image after the
  watermark is drawn, which has not changed this image, and nothing is taken out of it,
  the orientation tag included.
\<close>

theorem process_file_keeps_exif_bytes:
  assumes "open_value P (files w) in_file = Inr v"
    and "img_info_exif v = Some blob" and "blob \<noteq> []"
    and "format_of v = ''JPEG'' \<or> format_of v = ''TIFF''"
    and "printed (snd (process_file P in_file out_root source_root fnt color_rgba position w))
           = printed w @ [Done in_file out_path]"
  shows "\<exists>sf. files (snd (process_file P in_file out_root source_root fnt color_rgba
                             position w)) out_path = Some (File sf)
              \<and> sf_exif sf = Some blob \<and> sf_format sf = format_of v"
proof -
  obtain rb wb where b: "process_file_body P in_file out_root source_root fnt color_rgba
      position w = (rb, wb)"
    by (cases "process_file_body P in_file out_root source_root fnt color_rgba position w")
  note f = process_file_body_result [OF b]
  show ?thesis
  proof (cases rb)
    case (Inl x)
    with b have "printed (snd (process_file P in_file out_root source_root fnt color_rgba
        position w)) = printed wb @ [Failed in_file x]
      \<or> printed (snd (process_file P in_file out_root source_root fnt color_rgba
        position w)) = printed wb"
      by (simp add: process_file_def print_message_def split: option.splits)
    with f(1) [OF Inl] assms(5) show ?thesis by auto
  next
    case (Inr u)
    with b have s: "snd (process_file P in_file out_root source_root fnt color_rgba
        position w) = wb"
      by (simp add: process_file_def)
    from f(2) [OF Inr] assms(5) s obtain p sf v' where
      o: "open_value P (files w) in_file = Inr v'"
      and d: "printed wb = printed w @ [Done in_file p]"
      and k: "files wb p = Some (File sf)" "sf_exif sf = exif_keyword v' (format_of v')"
        "sf_format sf = format_of v'"
      by auto
    from o assms(1) have v: "v' = v" by simp
    from d assms(5) s have p: "p = out_path" by simp
    have "exif_keyword v (format_of v) = Some blob"
      using assms(2,3,4) by (auto simp: exif_keyword_def)
    with k v p s show ?thesis by simp
  qed
qed

theorem process_file_keeps_exif_bytes_witness:
  "files (snd (process_file example_pil example_in_file example_out_root example_source_root
     DefaultFont [255, 255, 255, 128] ''bottom-right'' example_world)) example_out_file
   = Some (File \<lparr>sf_mode = ''RGB'', sf_width = 640, sf_height = 480,
          sf_pixels = [7, 10, 10, 10], sf_format = ''JPEG'', sf_quality = Some 95,
          sf_subsampling = Some 2, sf_exif = img_info_exif example_photo\<rparr>)
   \<and> img_info_exif example_photo = Some [69, 120, 105, 102, 0, 6]"
proof -
  have w: "example_world\<lparr>printed := []\<rparr> = example_world"
    by (simp add: example_world_def)
  note run = example_good_run [of "[]", unfolded w]
  have o: "open_value example_pil (files example_world) example_in_file = Inr example_photo"
    by (simp add: example_pil_def example_world_def name_def is_file_def example_batch)
  have e: "img_info_exif example_photo = Some [69, 120, 105, 102, 0, 6]"
    by (simp add: example_photo_def)
  have n: "[69, 120, 105, 102, 0, 6] \<noteq> ([] :: nat list)" by simp
  have fm: "format_of example_photo = ''JPEG'' \<or> format_of example_photo = ''TIFF''"
    by (simp add: example_photo_format)
  have d: "printed (snd (process_file example_pil example_in_file example_out_root
      example_source_root DefaultFont [255, 255, 255, 128] ''bottom-right'' example_world))
    = printed example_world @ [Done example_in_file example_out_file]"
    using run by (simp add: example_world_def)
  from process_file_keeps_exif_bytes [OF o e n fm d] run e
  show ?thesis by simp
qed

end
